theory Spec2Isabelle
  imports Complex_Main "HOL-Library.AList"
begin

section \<open>Python values\<close>

text \<open>
  The module works on JSON-like values: the field selection passed as \<open>fields\<close>, the
  parameter values, the dictionaries a query function returns. They are modelled by one
  datatype. A dictionary is an association list in iteration order
  (\<open>list(d.items())[0]\<close> is its head); \<open>map_of\<close> is the lookup, \<open>AList.update\<close> the
  item assignment, \<open>AList.delete\<close> the \<open>del\<close> statement.
\<close>

datatype pyval =
    PNone
  | PBool bool
  | PInt int
  | PStr string
  | PList "pyval list"
  | PDict "(string \<times> pyval) list"

type_synonym pydict = "(string \<times> pyval) list"

text \<open>
  Exceptions are values. \<open>Raised\<close> stands for whatever the external collaborator
  raises (transport failure, server error); \<open>RecursionError\<close> is what Python raises when
  the call stack is exhausted.
\<close>

datatype exn =
    StopIteration
  | TypeError
  | KeyError
  | IndexError
  | AttributeError
  | RecursionError
  | Raised string

text \<open>Truth value testing (\<open>if x:\<close>, \<open>not x\<close>).\<close>

fun truthy :: "pyval \<Rightarrow> bool" where
  "truthy PNone = False"
| "truthy (PBool b) = b"
| "truthy (PInt i) = (i \<noteq> 0)"
| "truthy (PStr s) = (s \<noteq> [])"
| "truthy (PList xs) = (xs \<noteq> [])"
| "truthy (PDict d) = (d \<noteq> [])"

text \<open>\<open>d.setdefault(k, v)\<close>: a missing key is added at the end, a present one is kept.\<close>

definition setdefault :: "'k \<Rightarrow> 'v \<Rightarrow> ('k \<times> 'v) list \<Rightarrow> ('k \<times> 'v) list" where
  "setdefault k v d = (if map_of d k = None then d @ [(k, v)] else d)"

text \<open>\<open>sep.join(xs)\<close> on a list of strings.\<close>

fun join :: "string \<Rightarrow> string list \<Rightarrow> string" where
  "join sep [] = []"
| "join sep [x] = x"
| "join sep (x # y # ys) = x @ sep @ join sep (y # ys)"

section \<open>Query builder and simple call executor\<close>

text \<open>\<open>_IsScalarType\<close> (source lines 9-22).\<close>

definition IsScalarType :: "string \<Rightarrow> bool" where
  "IsScalarType typeName \<longleftrightarrow>
     typeName \<in> set [''Int'', ''Float'', ''String'', ''Boolean'', ''ID'',
                      ''Data'', ''Any'', ''Void'', ''DateTime'']"

text \<open>
  \<open>_StringifyQueryFields\<close> (lines 24-36). A dictionary is walked item by item
  (\<open>selectedFields_of_items\<close> is the \<open>for\<close> loop of lines 27-32); any other value is
  iterated (lines 34-35): a list yields its elements, a string its characters, and
  \<open>None\<close>, a number or a boolean is not iterable. \<open>', '.join\<close> raises \<open>TypeError\<close> on
  an element that is not a string.
\<close>

fun str_elements :: "pyval list \<Rightarrow> exn + string list" where
  "str_elements [] = Inr []"
| "str_elements (PStr s # xs) =
     (case str_elements xs of Inl e \<Rightarrow> Inl e | Inr ss \<Rightarrow> Inr (s # ss))"
| "str_elements (x # xs) = Inl TypeError"

fun StringifyQueryFields :: "pyval \<Rightarrow> exn + string"
  and selectedFields_of_items :: "(string \<times> pyval) list \<Rightarrow> exn + string list" where
  "StringifyQueryFields (PDict fields) =
     (case selectedFields_of_items fields of
        Inl e \<Rightarrow> Inl e
      | Inr selectedFields \<Rightarrow> Inr (''{'' @ join '', '' selectedFields @ ''}''))"
| "StringifyQueryFields (PList fields) =
     (case str_elements fields of
        Inl e \<Rightarrow> Inl e
      | Inr selectedFields \<Rightarrow> Inr (''{'' @ join '', '' selectedFields @ ''}''))"
| "StringifyQueryFields (PStr fields) =
     Inr (''{'' @ join '', '' (map (\<lambda>c. [c]) fields) @ ''}'')"
| "StringifyQueryFields PNone = Inl TypeError"
| "StringifyQueryFields (PBool b) = Inl TypeError"
| "StringifyQueryFields (PInt i) = Inl TypeError"
| "selectedFields_of_items [] = Inr []"
| "selectedFields_of_items ((fieldName, subFields) # rest) =
     (if truthy subFields then
        (case StringifyQueryFields subFields of
           Inl e \<Rightarrow> Inl e
         | Inr subQuery \<Rightarrow>
             (case selectedFields_of_items rest of
                Inl e \<Rightarrow> Inl e
              | Inr selectedFields \<Rightarrow> Inr ((fieldName @ '' '' @ subQuery) # selectedFields)))
      else
        (case selectedFields_of_items rest of
           Inl e \<Rightarrow> Inl e
         | Inr selectedFields \<Rightarrow> Inr (fieldName # selectedFields)))"

text \<open>
  \<open>GraphClientBase._CallSimpleGraphAPI\<close> (lines 45-94), its local variables one
  definition each. \<open>queryFields\<close> is lines 58-64.
\<close>

definition queryFields :: "string \<Rightarrow> pyval \<Rightarrow> exn + string" where
  "queryFields returnType fields =
     (if IsScalarType returnType then Inr ''''
      else if \<not> truthy fields then Inr ''{ __typename }''
      else StringifyQueryFields fields)"

text \<open>Lines 65-70 and 71-74: the declarations and the bindings, before the parentheses.\<close>

definition queryParameters :: "(string \<times> string \<times> pyval) list \<Rightarrow> string" where
  "queryParameters parameterNameTypeValues =
     (let s = join '', '' (map (\<lambda>(parameterName, parameterType, parameterValue).
                ''$'' @ parameterName @ '': '' @ parameterType) parameterNameTypeValues)
      in if s \<noteq> [] then ''('' @ s @ '')'' else s)"

definition queryArguments :: "(string \<times> string \<times> pyval) list \<Rightarrow> string" where
  "queryArguments parameterNameTypeValues =
     join '', '' (map (\<lambda>(parameterName, parameterType, parameterValue).
        parameterName @ '': $'' @ parameterName) parameterNameTypeValues)"

text \<open>
  Lines 75-85: the query text. \<open>selection\<close> is the value of \<open>queryFields\<close> computed
  above; it gets a leading blank when there are arguments and it is not empty.
\<close>

definition query :: "string \<Rightarrow> string \<Rightarrow> (string \<times> string \<times> pyval) list \<Rightarrow> string \<Rightarrow> string" where
  "query queryOrMutation operationName parameterNameTypeValues selection =
     (let args = queryArguments parameterNameTypeValues;
          selection' = (if args \<noteq> [] \<and> selection \<noteq> [] then '' '' @ selection else selection);
          args' = (if args \<noteq> [] then ''('' @ args @ '')'' else args)
      in queryOrMutation @ '' '' @ operationName @ queryParameters parameterNameTypeValues
           @ '' {'' @ [CHR 0x0A] @ ''    '' @ operationName @ args' @ selection'
           @ [CHR 0x0A] @ ''}'')"

text \<open>Lines 86-88: the variables dictionary, filled in parameter order.\<close>

definition variables :: "(string \<times> string \<times> pyval) list \<Rightarrow> pydict" where
  "variables parameterNameTypeValues =
     foldl (\<lambda>vars (parameterName, parameterType, parameterValue).
              AList.update parameterName parameterValue vars) [] parameterNameTypeValues"

text \<open>
  The whole call. \<open>CallGraphAPI\<close> is the external collaborator
  \<open>self._webclient.CallGraphAPI(query, variables, timeout=timeout)\<close>, acting on an
  environment \<open>'e\<close>; the two log lines have no effect on the result and are left out.
  \<open>data.get(operationName)\<close> is \<open>None\<close> for a missing key.
\<close>

definition CallSimpleGraphAPI ::
  "(string \<Rightarrow> pydict \<Rightarrow> real \<Rightarrow> 'e \<Rightarrow> (exn + pydict) \<times> 'e) \<Rightarrow> string \<Rightarrow> string \<Rightarrow>
   (string \<times> string \<times> pyval) list \<Rightarrow> string \<Rightarrow> pyval \<Rightarrow> real option \<Rightarrow> 'e \<Rightarrow> (exn + pyval) \<times> 'e" where
  "CallSimpleGraphAPI CallGraphAPI queryOrMutation operationName parameterNameTypeValues
       returnType fields timeout e =
     (let timeout' = (case timeout of None \<Rightarrow> 5 | Some t \<Rightarrow> t) in
      case queryFields returnType fields of
        Inl err \<Rightarrow> (Inl err, e)
      | Inr selection \<Rightarrow>
          (case CallGraphAPI
                  (query queryOrMutation operationName parameterNameTypeValues selection)
                  (variables parameterNameTypeValues) timeout' e of
             (Inl err, e') \<Rightarrow> (Inl err, e')
           | (Inr data, e') \<Rightarrow>
               (Inr (case map_of data operationName of None \<Rightarrow> PNone | Some v \<Rightarrow> v), e')))"

section \<open>The store, keyword arguments and query functions\<close>

text \<open>
  The \<open>options\<close> dictionary (\<open>{'offset': ..., 'first': ...}\<close>) is the one object the
  paginators mutate after construction, and the caller may hold a reference to the
  dictionary it passed. Option dictionaries therefore live in a store: the heap is the
  list of all option dictionaries allocated so far, an address is an index into it, and
  a new dictionary is appended. Every other value is immutable here and carried by value.
\<close>

type_synonym addr = nat
type_synonym options = "(string \<times> int) list"

text \<open>
  The keyword arguments \<open>**kwargs\<close>: \<open>options\<close> (absent or \<open>None\<close> is \<open>None\<close> here:
  line 129 treats both alike), \<open>fields\<close> (\<open>None\<close> when the key is absent,
  \<open>Some PNone\<close> for \<open>fields=None\<close>) and all others. \<open>'o\<close> is \<open>addr\<close> where the
  options are a reference into the store, and \<open>options\<close> for the snapshot of them that a
  query function reads.
\<close>

record 'o kwargs =
  kw_options :: "'o option"
  kw_fields :: "pyval option"
  kw_others :: pydict

text \<open>
  A paged query function (\<open>client.graphApi.ListEnvironments\<close>, ...) is external: it
  takes the positional and the keyword arguments, acts on the environment \<open>'e\<close> (the
  server) and returns a response dictionary or raises. It reads its arguments and does
  not mutate them, so it gets the options by value.
\<close>

type_synonym 'e call = "pyval list \<Rightarrow> options kwargs \<Rightarrow> 'e \<Rightarrow> (exn + pydict) \<times> 'e"

text \<open>
  The callables the paginators are given, told apart by the attributes the code probes
  (\<open>hasattr(queryFunction, "inner")\<close>, \<open>queryFunction.__self__\<close>):
  a plain query function without an \<open>inner\<close> attribute; the function
  \<open>UseGraphQueryResult\<close> returns, whose \<open>inner\<close> is the function it wraps and which,
  being a plain function, has no \<open>__self__\<close>; and that function looked up on an
  instance, a bound method, which forwards \<open>inner\<close> and has the instance as
  \<open>__self__\<close>.
\<close>

datatype 'e pyfun =
    Function "'e call"
  | Wrapper "'e call"
  | BoundWrapper pyval "'e call"

text \<open>
  The world: the store, the log of the invocations of query functions made so far (a
  page fetch is one entry, with the arguments as they were at the call), and the
  environment of the query functions.
\<close>

record 'e world =
  heap :: "options list"
  calls :: "(pyval list \<times> options kwargs) list"
  env :: 'e

definition deref :: "options list \<Rightarrow> addr kwargs \<Rightarrow> options kwargs" where
  "deref h kw = \<lparr>kw_options = map_option (\<lambda>a. h ! a) (kw_options kw),
                 kw_fields = kw_fields kw, kw_others = kw_others kw\<rparr>"

text \<open>\<open>queryFunction(*args, **kwargs)\<close>: one page fetch.\<close>

definition invoke :: "'e call \<Rightarrow> pyval list \<Rightarrow> addr kwargs \<Rightarrow> 'e world \<Rightarrow> (exn + pydict) \<times> 'e world" where
  "invoke f args kw w =
     (case f args (deref (heap w) kw) (env w) of
        (r, e') \<Rightarrow> (r, w\<lparr>calls := calls w @ [(args, deref (heap w) kw)], env := e'\<rparr>))"

text \<open>
  \<open>copy.deepcopy(kwargs)\<close>: the options dictionary is copied into a new object; the
  other arguments are immutable values.
\<close>

definition deepcopy :: "addr kwargs \<Rightarrow> 'e world \<Rightarrow> addr kwargs \<times> 'e world" where
  "deepcopy kw w =
     (case kw_options kw of
        None \<Rightarrow> (kw, w)
      | Some a \<Rightarrow> (kw\<lparr>kw_options := Some (length (heap w))\<rparr>,
                   w\<lparr>heap := heap w @ [heap w ! a]\<rparr>))"

text \<open>
  Lines 129-132 and 213-216, the same in both constructors: a missing \<open>options\<close>
  becomes a new dictionary \<open>{'offset': 0, 'first': 0}\<close>, and missing keys are filled
  in. The result is the address of the (own) options dictionary.
\<close>

definition default_options :: "addr kwargs \<Rightarrow> 'e world \<Rightarrow> addr \<times> 'e world" where
  "default_options kw w =
     (case (case kw_options kw of
              None \<Rightarrow> (length (heap w), w\<lparr>heap := heap w @ [[(''offset'', 0), (''first'', 0)]]\<rparr>)
            | Some a \<Rightarrow> (a, w)) of
        (a, w1) \<Rightarrow>
          (a, w1\<lparr>heap := (heap w1)[a := setdefault ''first'' 0
                                          (setdefault ''offset'' 0 (heap w1 ! a))]\<rparr>))"

text \<open>Lines 135-138 and 234-237: the page size sent to the server.\<close>

definition clamp_first :: "int \<Rightarrow> int \<Rightarrow> int" where
  "clamp_first maxQueryLimit first =
     (if first > 0 then min first maxQueryLimit else maxQueryLimit)"

text \<open>
  Lines 167-169 and 239-241, the same in both classes: \<open>meta.totalCount\<close> is read and
  \<open>meta\<close> deleted from the response. Subscripting anything but a dictionary with
  \<open>'totalCount'\<close> is a \<open>TypeError\<close>, a dictionary without the key a \<open>KeyError\<close>.
\<close>

definition take_meta :: "pydict \<Rightarrow> exn + (pyval option \<times> pydict)" where
  "take_meta rawResponse =
     (case map_of rawResponse ''meta'' of
        None \<Rightarrow> Inr (None, rawResponse)
      | Some (PDict meta) \<Rightarrow>
          (case map_of meta ''totalCount'' of
             None \<Rightarrow> Inl KeyError
           | Some totalCount \<Rightarrow> Inr (Some totalCount, AList.delete ''meta'' rawResponse))
      | Some _ \<Rightarrow> Inl TypeError)"

text \<open>
  The sequence operations the iterator applies to its buffer, which is whatever value
  the response held: \<open>len(x)\<close>, \<open>x[0]\<close>, \<open>x[1:]\<close> and \<open>x[:k]\<close> (a negative \<open>k\<close>
  counts from the end). A dictionary has a length, but no item \<open>0\<close> and no slices.
\<close>

fun py_len :: "pyval \<Rightarrow> exn + nat" where
  "py_len (PList xs) = Inr (length xs)"
| "py_len (PStr s) = Inr (length s)"
| "py_len (PDict d) = Inr (length d)"
| "py_len PNone = Inl TypeError"
| "py_len (PBool b) = Inl TypeError"
| "py_len (PInt i) = Inl TypeError"

fun py_first :: "pyval \<Rightarrow> exn + pyval" where
  "py_first (PList []) = Inl IndexError"
| "py_first (PList (x # xs)) = Inr x"
| "py_first (PStr []) = Inl IndexError"
| "py_first (PStr (c # s)) = Inr (PStr [c])"
| "py_first (PDict d) = Inl KeyError"
| "py_first PNone = Inl TypeError"
| "py_first (PBool b) = Inl TypeError"
| "py_first (PInt i) = Inl TypeError"

fun py_rest :: "pyval \<Rightarrow> exn + pyval" where
  "py_rest (PList xs) = Inr (PList (drop 1 xs))"
| "py_rest (PStr s) = Inr (PStr (drop 1 s))"
| "py_rest (PDict d) = Inl TypeError"
| "py_rest PNone = Inl TypeError"
| "py_rest (PBool b) = Inl TypeError"
| "py_rest (PInt i) = Inl TypeError"

definition slice_to :: "int \<Rightarrow> 'a list \<Rightarrow> 'a list" where
  "slice_to k xs = (if 0 \<le> k then take (nat k) xs else take (length xs - nat (- k)) xs)"

fun py_slice_to :: "pyval \<Rightarrow> int \<Rightarrow> exn + pyval" where
  "py_slice_to (PList xs) k = Inr (PList (slice_to k xs))"
| "py_slice_to (PStr s) k = Inr (PStr (slice_to k s))"
| "py_slice_to (PDict d) k = Inl TypeError"
| "py_slice_to PNone k = Inl TypeError"
| "py_slice_to (PBool b) k = Inl TypeError"
| "py_slice_to (PInt i) k = Inl TypeError"

section \<open>The paging iterator\<close>

text \<open>\<open>class GraphQueryIterator\<close> (lines 96-201): its attributes.\<close>

record 'e GraphQueryIterator =
  it_queryFunction :: "'e call"
  it_args :: "pyval list"
  it_kwargs :: "addr kwargs"
  it_items :: pyval
  it_shouldStop :: bool
  it_totalLimit :: int
  it_count :: int
  it_totalCount :: pyval
  it_keyName :: "string option"

text \<open>
  \<open>GraphQueryIterator.__init__\<close> (lines 118-139). \<open>maxQueryLimit\<close> is the constant
  \<open>webstackclientutils.maxQueryLimit\<close>, which is defined outside this module and so
  is a parameter. Line 133 subscripts the options with \<open>'first'\<close>; the key is there
  after line 132, and the \<open>KeyError\<close> branch only keeps the lookup total.
\<close>

definition GraphQueryIterator_init ::
  "int \<Rightarrow> 'e pyfun \<Rightarrow> pyval list \<Rightarrow> addr kwargs \<Rightarrow> 'e world \<Rightarrow> (exn + 'e GraphQueryIterator) \<times> 'e world" where
  "GraphQueryIterator_init maxQueryLimit queryFunction args kwargs w =
     (case (case queryFunction of
              Function f \<Rightarrow> Inr (f, args)
            | Wrapper f \<Rightarrow> Inl AttributeError
            | BoundWrapper self f \<Rightarrow> Inr (f, self # args)) of
        Inl e \<Rightarrow> (Inl e, w)
      | Inr (queryFunction', args') \<Rightarrow>
          (case deepcopy kwargs w of
             (kw, w1) \<Rightarrow>
               (case default_options kw w1 of
                  (a, w2) \<Rightarrow>
                    (case map_of (heap w2 ! a) ''first'' of
                       None \<Rightarrow> (Inl KeyError, w2)
                     | Some totalLimit \<Rightarrow>
                         (Inr \<lparr>it_queryFunction = queryFunction',
                               it_args = args',
                               it_kwargs = kw\<lparr>kw_options := Some a,
                                   kw_fields := (case kw_fields kw of
                                                   None \<Rightarrow> Some (PDict [])
                                                 | Some flds \<Rightarrow> Some flds)\<rparr>,
                               it_items = PList [],
                               it_shouldStop = False,
                               it_totalLimit = totalLimit,
                               it_count = 0,
                               it_totalCount = PNone,
                               it_keyName = None\<rparr>,
                          w2\<lparr>heap := (heap w2)[a := AList.update ''first''
                                  (clamp_first maxQueryLimit totalLimit) (heap w2 ! a)]\<rparr>)))))"

text \<open>
  Lines 170-177: what a response (its \<open>meta\<close> removed) gives the iterator. With a
  \<open>'__typename'\<close> key, the key name and a one-item list; otherwise nothing for the
  empty response and the first item of the dictionary for any other.
\<close>

definition response_page :: "pydict \<Rightarrow> (string \<times> pyval) option" where
  "response_page rawResponse =
     (case map_of rawResponse ''__typename'' of
        Some v \<Rightarrow> Some (''__typename'', PList [v])
      | None \<Rightarrow> (case rawResponse of [] \<Rightarrow> None | kv # _ \<Rightarrow> Some kv))"

text \<open>
  \<open>GraphQueryIterator.next\<close> (lines 150-188) in two parts. \<open>GraphQueryIterator_fetch\<close>
  is the block of lines 166-186 (\<^emph>\<open>query webstack if buffer is empty\<close>): it ends by
  raising, or falls through to the call of \<open>self.next()\<close> in line 188. An exception
  leaves the attributes as they were set before it was raised.
\<close>

definition GraphQueryIterator_fetch ::
  "'e GraphQueryIterator \<Rightarrow> 'e world \<Rightarrow> exn option \<times> 'e GraphQueryIterator \<times> 'e world" where
  "GraphQueryIterator_fetch self w =
     (case invoke (it_queryFunction self) (it_args self) (it_kwargs self) w of
        (Inl e, w1) \<Rightarrow> (Some e, self, w1)
      | (Inr rawResponse, w1) \<Rightarrow>
     (case take_meta rawResponse of
        Inl e \<Rightarrow> (Some e, self, w1)
      | Inr (totalCount, rawResponse') \<Rightarrow>
     (let self1 = (case totalCount of None \<Rightarrow> self | Some c \<Rightarrow> self\<lparr>it_totalCount := c\<rparr>) in
      case response_page rawResponse' of
        None \<Rightarrow> (Some StopIteration, self1, w1)
      | Some (keyName, items) \<Rightarrow>
     (let self2 = self1\<lparr>it_keyName := Some keyName, it_items := items\<rparr> in
      case py_len items of
        Inl e \<Rightarrow> (Some e, self2, w1)
      | Inr m \<Rightarrow>
     (case kw_options (it_kwargs self) of
        None \<Rightarrow> (Some KeyError, self2, w1)
      | Some a \<Rightarrow>
     (case map_of (heap w1 ! a) ''offset'' of
        None \<Rightarrow> (Some KeyError, self2, w1)
      | Some offset \<Rightarrow>
     (let w2 = w1\<lparr>heap := (heap w1)[a := AList.update ''offset'' (offset + int m) (heap w1 ! a)]\<rparr> in
      case map_of (heap w2 ! a) ''first'' of
        None \<Rightarrow> (Some KeyError, self2, w2)
      | Some first \<Rightarrow>
     (let self3 = (if int m < first then self2\<lparr>it_shouldStop := True\<rparr> else self2) in
      if it_totalLimit self \<noteq> 0 \<and> it_count self + int m \<ge> it_totalLimit self then
        (case py_slice_to items (it_totalLimit self - it_count self) of
           Inl e \<Rightarrow> (Some e, self3\<lparr>it_shouldStop := True\<rparr>, w2)
         | Inr items' \<Rightarrow> (None, self3\<lparr>it_shouldStop := True, it_items := items'\<rparr>, w2))
      else (None, self3, w2)))))))))"

text \<open>
  The method itself. It calls itself in line 188; the first argument is the number of
  stack frames Python still allows, and with none left the call raises
  \<open>RecursionError\<close>.
\<close>

fun GraphQueryIterator_next ::
  "nat \<Rightarrow> 'e GraphQueryIterator \<Rightarrow> 'e world \<Rightarrow> (exn + pyval) \<times> 'e GraphQueryIterator \<times> 'e world" where
  "GraphQueryIterator_next 0 self w = (Inl RecursionError, self, w)"
| "GraphQueryIterator_next (Suc depth) self w =
     (case py_len (it_items self) of
        Inl e \<Rightarrow> (Inl e, self, w)
      | Inr n \<Rightarrow>
          if n \<noteq> 0 then
            (case py_first (it_items self) of
               Inl e \<Rightarrow> (Inl e, self, w)
             | Inr item \<Rightarrow>
                 (case py_rest (it_items self) of
                    Inl e \<Rightarrow> (Inl e, self, w)
                  | Inr rest \<Rightarrow>
                      (Inr item, self\<lparr>it_items := rest, it_count := it_count self + 1\<rparr>, w)))
          else if it_shouldStop self then (Inl StopIteration, self, w)
          else
            (case GraphQueryIterator_fetch self w of
               (Some e, self', w') \<Rightarrow> (Inl e, self', w')
             | (None, self', w') \<Rightarrow> GraphQueryIterator_next depth self' w'))"

text \<open>
  Iterating to completion, as \<open>[item for item in iterator]\<close> (line 266) or a \<open>for\<close>
  loop does: \<open>next\<close> is called until it raises; \<open>StopIteration\<close> ends the loop,
  any other exception leaves it. The loop need not end (a server can return full pages
  for ever), so it runs on fuel and \<open>None\<close> means the fuel ran out. \<open>depth\<close> is the
  stack depth available to each \<open>next\<close>.
\<close>

fun iterate ::
  "nat \<Rightarrow> nat \<Rightarrow> 'e GraphQueryIterator \<Rightarrow> 'e world \<Rightarrow>
   ((exn + pyval list) \<times> 'e GraphQueryIterator \<times> 'e world) option" where
  "iterate 0 depth self w = None"
| "iterate (Suc fuel) depth self w =
     (case GraphQueryIterator_next depth self w of
        (Inl StopIteration, self', w') \<Rightarrow> Some (Inr [], self', w')
      | (Inl e, self', w') \<Rightarrow> Some (Inl e, self', w')
      | (Inr item, self', w') \<Rightarrow>
          (case iterate fuel depth self' w' of
             None \<Rightarrow> None
           | Some (Inl e, s) \<Rightarrow> Some (Inl e, s)
           | Some (Inr items, s) \<Rightarrow> Some (Inr (item # items), s)))"

section \<open>The paged result container\<close>

text \<open>
  \<open>class GraphQueryResult\<close> (lines 203-273), a subclass of
  \<open>webstackclientutils.QueryResult\<close> and through it of \<open>list\<close>. \<open>qr_list\<close> is the
  list the object is: the constructor of \<open>list\<close> is not called on construction, so it
  starts empty, and only \<open>list.__init__\<close> (lines 244 and 267) writes it. The other
  fields are the attributes; \<open>_items\<close> and \<open>_currentOffset\<close> are \<open>None\<close> until
  \<open>_APICall\<close> sets them. The query function is called as it is (line 238), so it is a
  plain paged query function.
\<close>

record 'e GraphQueryResult =
  qr_queryFunction :: "'e call"
  qr_args :: "pyval list"
  qr_kwargs :: "addr kwargs"
  qr_limit :: int
  qr_offset :: int
  qr_fetchedAll :: bool
  qr_items :: pyval
  qr_currentOffset :: "int option"
  qr_totalCount :: pyval
  qr_keyName :: "string option"
  qr_list :: "pyval list"

text \<open>
  Lines 219-222: with a \<open>fields\<close> keyword, \<open>meta.totalCount\<close> is added to the
  selection. \<open>setdefault\<close> is a method of dictionaries only: on any other value of
  \<open>fields\<close>, or of \<open>fields['meta']\<close>, the attribute lookup raises.
\<close>

definition request_totalCount :: "pyval option \<Rightarrow> exn + pyval option" where
  "request_totalCount flds =
     (case flds of
        None \<Rightarrow> Inr None
      | Some (PDict d) \<Rightarrow>
          (case map_of (setdefault ''meta'' (PDict []) d) ''meta'' of
             Some (PDict meta) \<Rightarrow>
               Inr (Some (PDict (AList.update ''meta'' (PDict (setdefault ''totalCount'' PNone meta))
                                   (setdefault ''meta'' (PDict []) d))))
           | _ \<Rightarrow> Inl AttributeError)
      | Some _ \<Rightarrow> Inl AttributeError)"

text \<open>
  \<open>GraphQueryResult._APICall\<close> (lines 231-248): one page fetch at \<open>offset\<close>, on a
  deep copy of the keyword arguments. The result is the exception raised, if any, and
  the object as the call leaves it.
\<close>

definition APICall ::
  "int \<Rightarrow> 'e GraphQueryResult \<Rightarrow> int \<Rightarrow> 'e world \<Rightarrow> exn option \<times> 'e GraphQueryResult \<times> 'e world" where
  "APICall maxQueryLimit self offset w =
     (case deepcopy (qr_kwargs self) w of
        (kwargs, w1) \<Rightarrow>
     (case kw_options kwargs of
        None \<Rightarrow> (Some KeyError, self, w1)
      | Some a \<Rightarrow>
     (let w2 = w1\<lparr>heap := (heap w1)[a := AList.update ''offset'' offset (heap w1 ! a)]\<rparr> in
      case map_of (heap w2 ! a) ''first'' of
        None \<Rightarrow> (Some KeyError, self, w2)
      | Some first \<Rightarrow>
     (let w3 = w2\<lparr>heap := (heap w2)[a := AList.update ''first''
                       (clamp_first maxQueryLimit first) (heap w2 ! a)]\<rparr> in
      case invoke (qr_queryFunction self) (qr_args self) kwargs w3 of
        (Inl e, w4) \<Rightarrow> (Some e, self, w4)
      | (Inr data, w4) \<Rightarrow>
     (case take_meta data of
        Inl e \<Rightarrow> (Some e, self, w4)
      | Inr (totalCount, data') \<Rightarrow>
     (let self1 = (case totalCount of None \<Rightarrow> self | Some c \<Rightarrow> self\<lparr>qr_totalCount := c\<rparr>);
          self2 = (case map_of data' ''__typename'' of
                     Some v \<Rightarrow> self1\<lparr>qr_keyName := Some ''__typename'', qr_list := [v],
                                       qr_fetchedAll := True\<rparr>
                   | None \<Rightarrow>
                       (case data' of
                          [] \<Rightarrow> self1
                        | (keyName, items) # _ \<Rightarrow>
                            self1\<lparr>qr_keyName := Some keyName, qr_items := items\<rparr>))
      in (None, self2\<lparr>qr_currentOffset := Some offset\<rparr>, w4)))))))"

text \<open>
  \<open>GraphQueryResult.__init__\<close> (lines 209-224). An exception raised on the way,
  also by \<open>_APICall\<close>, leaves no object. The subscripts of lines 217 and 218 find
  their keys after lines 215 and 216; the \<open>KeyError\<close> branches only keep the lookups
  total.
\<close>

definition GraphQueryResult_init ::
  "int \<Rightarrow> 'e call \<Rightarrow> pyval list \<Rightarrow> addr kwargs \<Rightarrow> 'e world \<Rightarrow> (exn + 'e GraphQueryResult) \<times> 'e world" where
  "GraphQueryResult_init maxQueryLimit queryFunction args kwargs w =
     (case deepcopy kwargs w of
        (kw, w1) \<Rightarrow>
     (case default_options kw w1 of
        (a, w2) \<Rightarrow>
     (case map_of (heap w2 ! a) ''first'' of
        None \<Rightarrow> (Inl KeyError, w2)
      | Some limit \<Rightarrow>
     (case map_of (heap w2 ! a) ''offset'' of
        None \<Rightarrow> (Inl KeyError, w2)
      | Some offset \<Rightarrow>
     (case request_totalCount (kw_fields kw) of
        Inl e \<Rightarrow> (Inl e, w2)
      | Inr flds \<Rightarrow>
     (case APICall maxQueryLimit
             \<lparr>qr_queryFunction = queryFunction,
              qr_args = args,
              qr_kwargs = kw\<lparr>kw_options := Some a, kw_fields := flds\<rparr>,
              qr_limit = limit,
              qr_offset = offset,
              qr_fetchedAll = False,
              qr_items = PNone,
              qr_currentOffset = None,
              qr_totalCount = PNone,
              qr_keyName = None,
              qr_list = []\<rparr> offset w2 of
        (Some e, self, w3) \<Rightarrow> (Inl e, w3)
      | (None, self, w3) \<Rightarrow> (Inr self, w3)))))))"

text \<open>
  \<open>GraphQueryResult.__iter__\<close> (lines 226-229): the iterator of the list once
  everything is fetched, a new paging iterator before.
\<close>

datatype 'e result_iterator =
    ListIterator "pyval list"
  | PagingIterator "'e GraphQueryIterator"

definition GraphQueryResult_iter ::
  "int \<Rightarrow> 'e GraphQueryResult \<Rightarrow> 'e world \<Rightarrow> (exn + 'e result_iterator) \<times> 'e world" where
  "GraphQueryResult_iter maxQueryLimit self w =
     (if qr_fetchedAll self then (Inr (ListIterator (qr_list self)), w)
      else
        (case GraphQueryIterator_init maxQueryLimit (Function (qr_queryFunction self))
                (qr_args self) (qr_kwargs self) w of
           (Inl e, w') \<Rightarrow> (Inl e, w')
         | (Inr it, w') \<Rightarrow> (Inr (PagingIterator it), w')))"

text \<open>
  \<open>GraphQueryResult.FetchAll\<close> (lines 263-268). The list comprehension of line 266
  is \<open>iterate\<close>, so the method runs on its fuel; \<open>None\<close> is "did not return within the
  fuel". Otherwise the result is the exception raised, if any, and the object.
\<close>

definition FetchAll ::
  "int \<Rightarrow> nat \<Rightarrow> nat \<Rightarrow> 'e GraphQueryResult \<Rightarrow> 'e world \<Rightarrow>
   (exn option \<times> 'e GraphQueryResult \<times> 'e world) option" where
  "FetchAll maxQueryLimit fuel depth self w =
     (if qr_fetchedAll self then Some (None, self, w)
      else
        (case GraphQueryIterator_init maxQueryLimit (Function (qr_queryFunction self))
                (qr_args self) (qr_kwargs self) w of
           (Inl e, w1) \<Rightarrow> Some (Some e, self, w1)
         | (Inr it, w1) \<Rightarrow>
             (case iterate fuel depth it w1 of
                None \<Rightarrow> None
              | Some (Inl e, it', w2) \<Rightarrow> Some (Some e, self, w2)
              | Some (Inr items, it', w2) \<Rightarrow>
                  Some (None, self\<lparr>qr_list := items, qr_fetchedAll := True\<rparr>, w2))))"

text \<open>
  \<open>[item for item in queryResult]\<close>: \<open>__iter__\<close> (lines 226-229) and the loop over
  the iterator it returns. \<open>None\<close> is "did not return within the fuel".
\<close>

definition list_comprehension ::
  "int \<Rightarrow> nat \<Rightarrow> nat \<Rightarrow> 'e GraphQueryResult \<Rightarrow> 'e world \<Rightarrow> (exn + pyval list) option" where
  "list_comprehension maxQueryLimit fuel depth self w =
     (case GraphQueryResult_iter maxQueryLimit self w of
        (Inl e, w') \<Rightarrow> Some (Inl e)
      | (Inr (ListIterator xs), w') \<Rightarrow> Some (Inr xs)
      | (Inr (PagingIterator it), w') \<Rightarrow>
          (case iterate fuel depth it w' of
             None \<Rightarrow> None
           | Some (r, it', w2) \<Rightarrow> Some r))"

subsection \<open>Length and indexing of the base class\<close>

text \<open>
  Modelled from the spec: the items that the sequence operations of the base class
  \<open>webstackclientutils.QueryResult\<close> read; the class is not in the sources. By
  sections 3 and 4.5 of the specification the container "holds the first Page
  Response's items directly" and "behaves as an ordered sequence that is eagerly
  populated with exactly the first page's items", and after \<open>FetchAll\<close> it is "a
  complete, static, plain ordered sequence": before \<open>FetchAll\<close> the operations read
  the held page (the \<open>_items\<close> buffer, no item if it holds no sequence), afterwards
  the list.
\<close>

definition QueryResult_held :: "'e GraphQueryResult \<Rightarrow> pyval list" where
  "QueryResult_held self =
     (if qr_fetchedAll self then qr_list self
      else (case qr_items self of PList xs \<Rightarrow> xs | _ \<Rightarrow> []))"

text \<open>
  Modelled from the spec: \<open>QueryResult.__len__\<close>, not in the sources; the length of
  the ordered sequence the container behaves as.
\<close>

definition QueryResult_len :: "'e GraphQueryResult \<Rightarrow> int" where
  "QueryResult_len self = int (length (QueryResult_held self))"

text \<open>
  Modelled from the spec: \<open>QueryResult.__getitem__\<close> on an integer, not in the
  sources; indexing of the ordered sequence the container behaves as, with Python's
  rule for a sequence: a negative index counts from the end, an index out of range
  raises \<open>IndexError\<close>.
\<close>

definition QueryResult_getitem :: "'e GraphQueryResult \<Rightarrow> int \<Rightarrow> exn + pyval" where
  "QueryResult_getitem self index =
     (let n = int (length (QueryResult_held self));
          i = (if index < 0 then index + n else index)
      in if 0 \<le> i \<and> i < n then Inr (QueryResult_held self ! nat i) else Inl IndexError)"

section \<open>The pagination adapter\<close>

text \<open>
  \<open>UseGraphQueryResult\<close> (lines 275-291) returns the function \<open>wrapper\<close> with its
  attribute \<open>inner\<close> set to the function it wraps (line 290).
\<close>

definition UseGraphQueryResult :: "'e call \<Rightarrow> 'e pyfun" where
  "UseGraphQueryResult queryFunction = Wrapper queryFunction"

text \<open>
  Looking a function up on an instance (\<open>client.graphApi.ListEnvironments\<close>) gives a
  bound method: its \<open>__self__\<close> is the instance, and a call passes the instance as the
  first positional argument. For a plain function that is all there is to it.
\<close>

fun bound_method :: "pyval \<Rightarrow> 'e pyfun \<Rightarrow> 'e pyfun" where
  "bound_method obj (Function f) = Function (\<lambda>args. f (obj # args))"
| "bound_method obj (Wrapper f) = BoundWrapper obj f"
| "bound_method obj (BoundWrapper obj' f) = BoundWrapper obj' f"

text \<open>
  The body of \<open>wrapper\<close> (lines 279-288). Its response holds the container itself under
  the key name, so it has a type of its own: the entries in the order they are set.
  \<open>queryResult[0]\<close> (line 283) is read when the key name is \<open>'__typename'\<close>, which
  only line 243 sets, so the list is the one-item list of line 244.
\<close>

datatype 'e wrapped_value =
    Plain pyval
  | Container "'e GraphQueryResult"

definition wrapper ::
  "int \<Rightarrow> 'e call \<Rightarrow> pyval \<Rightarrow> pyval list \<Rightarrow> addr kwargs \<Rightarrow> 'e world \<Rightarrow>
   (exn + (string \<times> 'e wrapped_value) list) \<times> 'e world" where
  "wrapper maxQueryLimit queryFunction self args kwargs w =
     (case GraphQueryResult_init maxQueryLimit queryFunction (self # args) kwargs w of
        (Inl e, w') \<Rightarrow> (Inl e, w')
      | (Inr queryResult, w') \<Rightarrow>
          (case (if qr_keyName queryResult = Some ''__typename'' then
                   (case qr_list queryResult of
                      [] \<Rightarrow> Inl IndexError
                    | v # _ \<Rightarrow> Inr [(''__typename'', Plain v)])
                 else
                   (case qr_keyName queryResult of
                      None \<Rightarrow> Inr []
                    | Some keyName \<Rightarrow> Inr [(keyName, Container queryResult)])) of
             Inl e \<Rightarrow> (Inl e, w')
           | Inr response \<Rightarrow>
               (Inr (if qr_totalCount queryResult \<noteq> PNone
                     then response @ [(''meta'', Plain (PDict [(''totalCount'', qr_totalCount queryResult)]))]
                     else response), w')))"

section \<open>A paged data set\<close>

text \<open>
  The query function of the testable properties: a server holding the ordered sequence
  \<open>data\<close>, which answers a call with the slice \<open>data[offset : offset + first]\<close> under
  the key \<open>keyName\<close>, preceded by \<open>meta.totalCount\<close> when \<open>withMeta\<close> is set. It reads
  \<open>options\<close> only.
\<close>

definition paged_data :: "string \<Rightarrow> pyval list \<Rightarrow> bool \<Rightarrow> 'e call" where
  "paged_data keyName data withMeta args kw e =
     (case kw_options kw of
        None \<Rightarrow> (Inl KeyError, e)
      | Some opts \<Rightarrow>
          (case (map_of opts ''offset'', map_of opts ''first'') of
             (Some offset, Some first) \<Rightarrow>
               (Inr ((if withMeta
                      then [(''meta'', PDict [(''totalCount'', PInt (int (length data)))])]
                      else [])
                     @ [(keyName, PList (take (nat first) (drop (nat offset) data)))]), e)
           | _ \<Rightarrow> (Inl KeyError, e)))"

text \<open>
  The query function of the scalar scenario: every call returns \<open>{'__typename': v}\<close>
  and nothing else.
\<close>

definition scalar_query :: "pyval \<Rightarrow> 'e call" where
  "scalar_query v args kw e = (Inr [(''__typename'', v)], e)"

section \<open>Runs of the iterator\<close>

text \<open>
  What the caller asks for under \<open>options[k]\<close>: lines 129-132 read a missing
  \<open>options\<close> and a missing key as \<open>0\<close>.
\<close>

definition requested :: "addr kwargs \<Rightarrow> 'e world \<Rightarrow> string \<Rightarrow> int" where
  "requested kwargs w k =
     (case kw_options kwargs of
        None \<Rightarrow> 0
      | Some a \<Rightarrow> (case map_of (heap w ! a) k of None \<Rightarrow> 0 | Some v \<Rightarrow> v))"

text \<open>
  A caller that calls \<open>next\<close> again and again, whatever each call returns or raises;
  the list gives the stack depth available to each call.
\<close>

fun nexts ::
  "nat list \<Rightarrow> 'e GraphQueryIterator \<Rightarrow> 'e world \<Rightarrow> 'e GraphQueryIterator \<times> 'e world" where
  "nexts [] self w = (self, w)"
| "nexts (depth # depths) self w =
     (case GraphQueryIterator_next depth self w of (r, self', w') \<Rightarrow> nexts depths self' w')"

text \<open>
  The options dictionary a constructor ends up owning after lines 126-132 (213-216):
  the copy of the caller's, or the default one, with the missing keys filled in.
\<close>

definition own_options :: "addr kwargs \<Rightarrow> 'e world \<Rightarrow> options" where
  "own_options kwargs w =
     setdefault ''first'' 0 (setdefault ''offset'' 0
       (case kw_options kwargs of
          None \<Rightarrow> [(''offset'', 0), (''first'', 0)]
        | Some a0 \<Rightarrow> heap w ! a0))"

text \<open>
  \<open>[item for item in GraphQueryIterator(queryFunction, *args, **kwargs)]\<close>: construct
  an iterator and iterate it to completion. The result is the list of the items yielded
  (or the exception that ended the run) and the number of page fetches the run made;
  \<open>None\<close> when the fuel ran out.
\<close>

definition collect ::
  "int \<Rightarrow> nat \<Rightarrow> nat \<Rightarrow> 'e pyfun \<Rightarrow> pyval list \<Rightarrow> addr kwargs \<Rightarrow> 'e world \<Rightarrow>
   ((exn + pyval list) \<times> nat) option" where
  "collect maxQueryLimit fuel depth queryFunction args kwargs w =
     (case GraphQueryIterator_init maxQueryLimit queryFunction args kwargs w of
        (Inl e, w1) \<Rightarrow> Some (Inl e, length (calls w1) - length (calls w))
      | (Inr it, w1) \<Rightarrow>
          (case iterate fuel depth it w1 of
             None \<Rightarrow> None
           | Some (r, it', w') \<Rightarrow> Some (r, length (calls w') - length (calls w))))"

text \<open>
  The page size the iterator holds in its own options is positive. The constructor
  establishes this when \<open>maxQueryLimit\<close> is, and \<open>next\<close> keeps it.
\<close>

definition first_positive :: "'e GraphQueryIterator \<Rightarrow> 'e world \<Rightarrow> bool" where
  "first_positive self w =
     (case kw_options (it_kwargs self) of
        None \<Rightarrow> False
      | Some a \<Rightarrow>
          a < length (heap w) \<and>
          (case map_of (heap w ! a) ''first'' of None \<Rightarrow> False | Some first \<Rightarrow> 1 \<le> first))"

text \<open>
  \<open>GraphQueryResult(queryFunction, *args, **kwargs)\<close>, observed right after
  construction: the list the container is, its \<open>_items\<close> buffer, \<open>_fetchedAll\<close>, and
  the number of page fetches the construction made.
\<close>

definition construct ::
  "int \<Rightarrow> 'e call \<Rightarrow> pyval list \<Rightarrow> addr kwargs \<Rightarrow> 'e world \<Rightarrow>
   exn + (pyval list \<times> pyval \<times> bool \<times> nat)" where
  "construct maxQueryLimit queryFunction args kwargs w =
     (case GraphQueryResult_init maxQueryLimit queryFunction args kwargs w of
        (Inl e, w') \<Rightarrow> Inl e
      | (Inr r, w') \<Rightarrow>
          Inr (qr_list r, qr_items r, qr_fetchedAll r, length (calls w') - length (calls w)))"

section \<open>Auxiliary facts\<close>

lemma map_of_setdefault:
  "map_of (setdefault k v d) k' =
     (if k' = k \<and> map_of d k = None then Some v else map_of d k')"
  by (auto simp: setdefault_def map_add_def split: option.splits)

lemma map_of_update: "map_of (AList.update k v d) k' = (if k' = k then Some v else map_of d k')"
  by (simp add: update_conv')

lemma invoke_paged_data:
  assumes "kw_options kw = Some a"
    and "map_of (heap w ! a) ''offset'' = Some off" "map_of (heap w ! a) ''first'' = Some p"
  shows "invoke (paged_data keyName data withMeta) args kw w =
     (Inr ((if withMeta then [(''meta'', PDict [(''totalCount'', PInt (int (length data)))])] else [])
           @ [(keyName, PList (take (nat p) (drop (nat off) data)))]),
      w\<lparr>calls := calls w @ [(args, deref (heap w) kw)]\<rparr>)"
  using assms by (simp add: invoke_def paged_data_def deref_def)

lemma take_meta_paged:
  assumes "keyName \<noteq> ''meta''"
  shows "take_meta ((if withMeta then [(''meta'', PDict [(''totalCount'', tc)])] else []) @ [(keyName, v)])
       = Inr (if withMeta then Some tc else None, [(keyName, v)])"
  using assms by (simp add: take_meta_def)

lemma response_page_single:
  assumes "keyName \<noteq> ''__typename''"
  shows "response_page [(keyName, v)] = Some (keyName, v)"
  using assms by (simp add: response_page_def)

lemma fetch_list_page:
  assumes inv: "invoke (it_queryFunction self) (it_args self) (it_kwargs self) w =
             (Inr ((if withMeta then [(''meta'', PDict [(''totalCount'', tc)])] else [])
                   @ [(keyName, PList page)]), w1)"
    and a: "kw_options (it_kwargs self) = Some a" "a < length (heap w1)"
    and opts: "map_of (heap w1 ! a) ''offset'' = Some off" "map_of (heap w1 ! a) ''first'' = Some p"
    and key: "keyName \<noteq> ''meta''" "keyName \<noteq> ''__typename''"
  shows "GraphQueryIterator_fetch self w =
     (None,
      self\<lparr>it_totalCount := (if withMeta then tc else it_totalCount self),
           it_keyName := Some keyName,
           it_items := PList
             (if it_totalLimit self \<noteq> 0 \<and> it_totalLimit self \<le> it_count self + int (length page)
              then slice_to (it_totalLimit self - it_count self) page else page),
           it_shouldStop := (it_shouldStop self \<or> int (length page) < p
              \<or> (it_totalLimit self \<noteq> 0 \<and> it_totalLimit self \<le> it_count self + int (length page)))\<rparr>,
      w1\<lparr>heap := (heap w1)[a := AList.update ''offset'' (off + int (length page)) (heap w1 ! a)]\<rparr>)"
  unfolding GraphQueryIterator_fetch_def
  using a opts
  by (simp add: inv take_meta_paged [OF key(1)]
      response_page_single [OF key(2)] Let_def map_of_update)


lemma next_pop:
  "it_items self = PList (x # xs) \<Longrightarrow>
   GraphQueryIterator_next (Suc d) self w =
     (Inr x, self\<lparr>it_items := PList xs, it_count := it_count self + 1\<rparr>, w)"
  by simp

lemma next_stop:
  "it_items self = PList [] \<Longrightarrow> it_shouldStop self \<Longrightarrow>
   GraphQueryIterator_next (Suc d) self w = (Inl StopIteration, self, w)"
  by simp

lemma next_fetch:
  "it_items self = PList [] \<Longrightarrow> \<not> it_shouldStop self \<Longrightarrow>
   GraphQueryIterator_fetch self w = (None, self', w') \<Longrightarrow>
   GraphQueryIterator_next (Suc d) self w = GraphQueryIterator_next d self' w'"
  by simp

lemma iterate_stop:
  "it_items self = PList [] \<Longrightarrow> it_shouldStop self \<Longrightarrow>
   iterate (Suc fuel) (Suc d) self w = Some (Inr [], self, w)"
  by simp

lemma iterate_buffer:
  "it_items self = PList buf \<Longrightarrow>
   iterate fuel (Suc d) (self\<lparr>it_items := PList [], it_count := it_count self + int (length buf)\<rparr>) w
     = Some (Inr xs, s) \<Longrightarrow>
   iterate (length buf + fuel) (Suc d) self w = Some (Inr (buf @ xs), s)"
proof (induction buf arbitrary: self)
  case Nil
  have e: "self\<lparr>it_items := PList []\<rparr> = self"
    using Nil.prems(1) by (cases self) simp
  show ?case using Nil.prems(2) by (simp add: e)
next
  case (Cons x buf)
  let ?self1 = "self\<lparr>it_items := PList buf, it_count := it_count self + 1\<rparr>"
  have n: "GraphQueryIterator_next (Suc d) self w = (Inr x, ?self1, w)"
    using Cons.prems(1) by (rule next_pop)
  have "iterate (length buf + fuel) (Suc d) ?self1 w = Some (Inr (buf @ xs), s)"
  proof (rule Cons.IH)
    show "it_items ?self1 = PList buf" by simp
    have "?self1\<lparr>it_items := PList [], it_count := it_count ?self1 + int (length buf)\<rparr>
        = self\<lparr>it_items := PList [], it_count := it_count self + int (length (x # buf))\<rparr>"
      by simp
    then show "iterate fuel (Suc d)
        (?self1\<lparr>it_items := PList [], it_count := it_count ?self1 + int (length buf)\<rparr>) w
        = Some (Inr xs, s)"
      using Cons.prems(2) by (simp add: add.assoc)
  qed
  then show ?case
    using n by simp
qed

lemma iterate_fetch:
  assumes "it_items self = PList []" "\<not> it_shouldStop self"
    and "GraphQueryIterator_fetch self w = (None, self', w')"
    and "it_items self' = PList buf" "buf \<noteq> [] \<or> it_shouldStop self'"
  shows "iterate fuel (Suc (Suc d)) self w = iterate fuel (Suc (Suc d)) self' w'"
proof (cases fuel)
  case 0
  then show ?thesis by simp
next
  case (Suc n)
  have "GraphQueryIterator_next (Suc (Suc d)) self w = GraphQueryIterator_next (Suc d) self' w'"
    using assms(1-3) by (rule next_fetch)
  also have "\<dots> = GraphQueryIterator_next (Suc (Suc d)) self' w'"
    using assms(4,5) by (cases buf) auto
  finally show ?thesis
    using Suc by simp
qed


lemma slice_to_take: "0 \<le> k \<Longrightarrow> slice_to k xs = take (nat k) xs"
  by (simp add: slice_to_def)

lemma iterate_paged_data:
  fixes p L c :: int and off :: nat
  assumes qf: "it_queryFunction self = paged_data keyName data withMeta"
    and a: "kw_options (it_kwargs self) = Some a" "a < length (heap w)"
    and opts: "map_of (heap w ! a) ''offset'' = Some (int off)"
              "map_of (heap w ! a) ''first'' = Some p"
    and p: "1 \<le> p"
    and key: "keyName \<noteq> ''meta''" "keyName \<noteq> ''__typename''"
    and st: "it_items self = PList []" "\<not> it_shouldStop self"
            "it_totalLimit self = L" "it_count self = c" "L = 0 \<or> c < L"
  shows "\<exists>fuel self' w'.
           iterate fuel (Suc (Suc d)) self w =
             Some (Inr (if L = 0 then drop off data else take (nat (L - c)) (drop off data)),
                   self', w')
         \<and> it_shouldStop self'
         \<and> (L = 0 \<longrightarrow> length (calls w') = length (calls w) + (length data - off) div nat p + 1)"
  using assms
proof (induction "length data - off" arbitrary: self w off c rule: less_induct)
  case less
  define page where "page = take (nat p) (drop off data)"
  define m where "m = length page"
  define trunc where "trunc \<longleftrightarrow> L \<noteq> 0 \<and> L \<le> c + int m"
  define buf where "buf = (if trunc then slice_to (L - c) page else page)"
  define w1 where "w1 = w\<lparr>calls := calls w @ [(it_args self, deref (heap w) (it_kwargs self))]\<rparr>"
  define w' where "w' = w1\<lparr>heap := (heap w1)[a := AList.update ''offset'' (int off + int m) (heap w1 ! a)]\<rparr>"
  define self' where "self' = self\<lparr>it_totalCount := (if withMeta then PInt (int (length data)) else it_totalCount self),
           it_keyName := Some keyName, it_items := PList buf,
           it_shouldStop := (it_shouldStop self \<or> int m < p \<or> trunc)\<rparr>"
  have m: "m = min (nat p) (length data - off)"
    by (simp add: m_def page_def min.commute)
  have inv: "invoke (it_queryFunction self) (it_args self) (it_kwargs self) w =
      (Inr ((if withMeta then [(''meta'', PDict [(''totalCount'', PInt (int (length data)))])] else [])
            @ [(keyName, PList page)]), w1)"
    using invoke_paged_data [OF less.prems(2) less.prems(4) less.prems(5), of keyName data withMeta "it_args self"]
    by (simp add: less.prems(1) page_def w1_def)
  have h1: "heap w1 = heap w" by (simp add: w1_def)
  have fetch: "GraphQueryIterator_fetch self w = (None, self', w')"
    using fetch_list_page [OF inv less.prems(2) _ _ _ less.prems(7,8), of "int off" p]
      less.prems(3,4,5)
    by (simp add: h1 self'_def w'_def buf_def trunc_def m_def less.prems(11,12))
  have stop': "it_shouldStop self' \<longleftrightarrow> int m < p \<or> trunc"
    by (simp add: self'_def less.prems(10))
  have items': "it_items self' = PList buf" by (simp add: self'_def)
  have calls': "length (calls w') = length (calls w) + 1"
    by (simp add: w'_def w1_def)
  let ?self2 = "self'\<lparr>it_items := PList [], it_count := it_count self' + int (length buf)\<rparr>"
  show ?case
  proof (cases "int m < p \<or> trunc")
    case True
    then have s': "it_shouldStop self'" by (simp add: stop')
    have buf: "buf = (if L = 0 then drop off data else take (nat (L - c)) (drop off data))"
    proof (cases trunc)
      case True
      then have "L \<noteq> 0" "L \<le> c + int m" by (simp_all add: trunc_def)
      with less.prems(13) have "c < L" by simp
      then have "buf = take (nat (L - c)) page"
        using True by (simp add: buf_def slice_to_take)
      moreover have "nat (L - c) \<le> nat p"
        using \<open>L \<le> c + int m\<close> m by linarith
      ultimately show ?thesis
        using \<open>L \<noteq> 0\<close> by (simp add: page_def min_def)
    next
      case False
      with True have short: "int m < p" by simp
      then have "length data - off < nat p" using m by linarith
      then have page: "page = drop off data" by (simp add: page_def)
      have "L \<noteq> 0 \<Longrightarrow> length (drop off data) \<le> nat (L - c)"
        using False page by (simp add: trunc_def m_def)
      then show ?thesis
        using False page by (auto simp add: buf_def)
    qed
    have "iterate (Suc 0) (Suc (Suc d)) ?self2 w' = Some (Inr [], ?self2, w')"
      by (rule iterate_stop) (simp_all add: s')
    from iterate_buffer [OF items' this]
    have "iterate (length buf + Suc 0) (Suc (Suc d)) self' w' = Some (Inr (buf @ []), ?self2, w')" .
    moreover have "iterate (length buf + Suc 0) (Suc (Suc d)) self w
        = iterate (length buf + Suc 0) (Suc (Suc d)) self' w'"
      using less.prems(9,10) fetch items' by (rule iterate_fetch) (simp add: s')
    moreover have "L = 0 \<Longrightarrow> (length data - off) div nat p = 0"
      using True m by (simp add: trunc_def)
    ultimately show ?thesis
      using buf calls' s' by (intro exI [of _ "length buf + Suc 0"] exI [of _ ?self2] exI [of _ w']) simp
  next
    case False
    then have full: "p \<le> int m" and nt: "\<not> trunc" by simp_all
    then have m_p: "m = nat p" using m by linarith
    have m_pos: "0 < m" using m_p less.prems(6) by simp
    have m_le: "m \<le> length data - off" using m by simp
    have bufp: "buf = page" using nt by (simp add: buf_def)
    have pg: "page = take m (drop off data)" by (simp only: page_def m_p)
    have s': "\<not> it_shouldStop self'" using False by (simp add: stop')
    have lim: "L = 0 \<or> c + int m < L" using nt by (auto simp add: trunc_def)
    have "\<exists>fuel self'' w''.
           iterate fuel (Suc (Suc d)) ?self2 w' =
             Some (Inr (if L = 0 then drop (off + m) data
                        else take (nat (L - (c + int m))) (drop (off + m) data)), self'', w'')
         \<and> it_shouldStop self''
         \<and> (L = 0 \<longrightarrow> length (calls w'') = length (calls w') + (length data - (off + m)) div nat p + 1)"
    proof (rule less.hyps)
      show "length data - (off + m) < length data - off"
        using m_pos m_le by simp
      show "it_queryFunction ?self2 = paged_data keyName data withMeta"
        by (simp add: self'_def less.prems(1))
      show "kw_options (it_kwargs ?self2) = Some a"
        by (simp add: self'_def less.prems(2))
      show "a < length (heap w')" by (simp add: w'_def h1 less.prems(3))
      show "map_of (heap w' ! a) ''offset'' = Some (int (off + m))"
        by (simp add: w'_def h1 less.prems(3) map_of_update)
      show "map_of (heap w' ! a) ''first'' = Some p"
        by (simp add: w'_def h1 less.prems(3) map_of_update less.prems(5))
      show "1 \<le> p" by fact
      show "keyName \<noteq> ''meta''" "keyName \<noteq> ''__typename''" by fact+
      show "it_items ?self2 = PList []" by simp
      show "\<not> it_shouldStop ?self2" using s' by simp
      show "it_totalLimit ?self2 = L" by (simp add: self'_def less.prems(11))
      show "it_count ?self2 = c + int m"
        by (simp add: self'_def less.prems(12) bufp m_def)
      show "L = 0 \<or> c + int m < L" by fact
    qed
    then obtain fuel self'' w'' where
      it: "iterate fuel (Suc (Suc d)) ?self2 w' =
             Some (Inr (if L = 0 then drop (off + m) data
                        else take (nat (L - (c + int m))) (drop (off + m) data)), self'', w'')"
      and s'': "it_shouldStop self''"
      and c'': "L = 0 \<longrightarrow> length (calls w'') = length (calls w') + (length data - (off + m)) div nat p + 1"
      by blast
    from iterate_buffer [OF items' it]
    have "iterate (length buf + fuel) (Suc (Suc d)) self' w' =
        Some (Inr (buf @ (if L = 0 then drop (off + m) data
                        else take (nat (L - (c + int m))) (drop (off + m) data))), self'', w'')" .
    moreover have "iterate (length buf + fuel) (Suc (Suc d)) self w
        = iterate (length buf + fuel) (Suc (Suc d)) self' w'"
      using less.prems(9,10) fetch items' by (rule iterate_fetch) (use m_pos in \<open>auto simp add: bufp m_def\<close>)
    moreover have "buf @ drop (off + m) data = drop off data"
      using append_take_drop_id [of m "drop off data"]
      by (simp only: bufp pg drop_drop add.commute [of m off])
    moreover have "L \<noteq> 0 \<Longrightarrow> buf @ take (nat (L - (c + int m))) (drop (off + m) data)
        = take (nat (L - c)) (drop off data)"
    proof -
      assume "L \<noteq> 0"
      with lim have "c + int m < L" by simp
      then have k: "nat (L - c) = m + nat (L - (c + int m))" by linarith
      have "take (m + nat (L - (c + int m))) (drop off data)
          = take m (drop off data) @ take (nat (L - (c + int m))) (drop (off + m) data)"
        by (simp only: take_add drop_drop add.commute [of m off])
      then show ?thesis
        by (simp only: k bufp pg)
    qed
    moreover have "(length data - off) div nat p = Suc ((length data - (off + m)) div nat p)"
      using m_le m_pos by (simp add: m_p [symmetric] le_div_geq)
    ultimately show ?thesis
      using s'' c'' calls'
      by (intro exI [of _ "length buf + fuel"] exI [of _ self''] exI [of _ w'']) auto
  qed
qed

lemma iterate_mono:
  "iterate fuel depth self w = Some r \<Longrightarrow> iterate (fuel + k) depth self w = Some r"
proof (induction fuel arbitrary: self w r)
  case 0
  then show ?case by simp
next
  case (Suc fuel)
  obtain res self' w' where n: "GraphQueryIterator_next depth self w = (res, self', w')"
    by (cases "GraphQueryIterator_next depth self w") auto
  show ?case
  proof (cases res)
    case (Inl e)
    with Suc.prems n show ?thesis by (cases e) simp_all
  next
    case (Inr item)
    with Suc.prems n obtain r' where r': "iterate fuel depth self' w' = Some r'"
      by (cases "iterate fuel depth self' w'") simp_all
    from Suc.IH [OF r'] have "iterate (fuel + k) depth self' w' = Some r'" .
    with Suc.prems n Inr r' show ?thesis by simp
  qed
qed


lemma deepcopy_Some:
  "kw_options kwargs = Some a0 \<Longrightarrow>
   deepcopy kwargs w = (kwargs\<lparr>kw_options := Some (length (heap w))\<rparr>,
                        w\<lparr>heap := heap w @ [heap w ! a0]\<rparr>)"
  by (simp add: deepcopy_def)

lemma deepcopy_None: "kw_options kwargs = None \<Longrightarrow> deepcopy kwargs w = (kwargs, w)"
  by (simp add: deepcopy_def)

lemma default_options_Some:
  "kw_options kw = Some a \<Longrightarrow> a < length (heap w) \<Longrightarrow>
   default_options kw w =
     (a, w\<lparr>heap := (heap w)[a := setdefault ''first'' 0 (setdefault ''offset'' 0 (heap w ! a))]\<rparr>)"
  by (simp add: default_options_def)

lemma default_options_None:
  "kw_options kw = None \<Longrightarrow>
   default_options kw w =
     (length (heap w), w\<lparr>heap := heap w @ [[(''offset'', 0), (''first'', 0)]]\<rparr>)"
  by (simp add: default_options_def setdefault_def)

lemma copy_and_default:
  "deepcopy kwargs w = (kw, w1) \<Longrightarrow>
   default_options kw w1 = (length (heap w), w\<lparr>heap := heap w @ [own_options kwargs w]\<rparr>)
   \<and> kw_fields kw = kw_fields kwargs \<and> kw_others kw = kw_others kwargs"
proof (cases "kw_options kwargs")
  case None
  assume "deepcopy kwargs w = (kw, w1)"
  with None have "kw = kwargs" "w1 = w" by (simp_all add: deepcopy_None)
  with None show ?thesis
    by (simp add: default_options_None own_options_def setdefault_def)
next
  case (Some a0)
  assume "deepcopy kwargs w = (kw, w1)"
  with Some have kw: "kw = kwargs\<lparr>kw_options := Some (length (heap w))\<rparr>"
    and w1: "w1 = w\<lparr>heap := heap w @ [heap w ! a0]\<rparr>"
    by (simp_all add: deepcopy_Some)
  have "default_options kw w1 = (length (heap w),
      w1\<lparr>heap := (heap w1)[length (heap w) := setdefault ''first'' 0
          (setdefault ''offset'' 0 (heap w1 ! length (heap w)))]\<rparr>)"
    by (rule default_options_Some) (simp_all add: kw w1)
  then show ?thesis
    by (simp add: kw w1 own_options_def Some)
qed

lemma own_options_requested:
  "map_of (own_options kwargs w) ''first'' = Some (requested kwargs w ''first'')"
  "map_of (own_options kwargs w) ''offset'' = Some (requested kwargs w ''offset'')"
  by (auto simp add: own_options_def requested_def map_of_setdefault split: option.splits)

lemma init_Function:
  "GraphQueryIterator_init maxQueryLimit (Function f) args kwargs w =
     (Inr \<lparr>it_queryFunction = f, it_args = args,
           it_kwargs = kwargs\<lparr>kw_options := Some (length (heap w)),
              kw_fields := (case kw_fields kwargs of None \<Rightarrow> Some (PDict []) | Some flds \<Rightarrow> Some flds)\<rparr>,
           it_items = PList [], it_shouldStop = False,
           it_totalLimit = requested kwargs w ''first'', it_count = 0,
           it_totalCount = PNone, it_keyName = None\<rparr>,
      w\<lparr>heap := heap w @ [AList.update ''first''
              (clamp_first maxQueryLimit (requested kwargs w ''first''))
              (own_options kwargs w)]\<rparr>)"
proof -
  obtain kw w1 where dc: "deepcopy kwargs w = (kw, w1)"
    by (cases "deepcopy kwargs w") auto
  note cd = copy_and_default [OF dc]
  have kw: "kw\<lparr>kw_options := Some (length (heap w))\<rparr> = kwargs\<lparr>kw_options := Some (length (heap w))\<rparr>"
    using dc by (cases "kw_options kwargs") (auto simp add: deepcopy_def)
  have kw': "kw\<lparr>kw_options := Some (length (heap w)), kw_fields := x\<rparr>
      = kwargs\<lparr>kw_options := Some (length (heap w)), kw_fields := x\<rparr>" for x
    using arg_cong [OF kw, of "kw_fields_update (\<lambda>_. x)"] by simp
  show ?thesis
    unfolding GraphQueryIterator_init_def
    by (simp add: dc cd own_options_requested kw')
qed

lemma clamp_first_pos: "1 \<le> M \<Longrightarrow> 0 \<le> L \<Longrightarrow> 1 \<le> clamp_first M L"
  by (simp add: clamp_first_def)

lemma iterate_from_init:
  fixes w :: "'e world"
  assumes M: "1 \<le> maxQueryLimit"
    and key: "keyName \<noteq> ''meta''" "keyName \<noteq> ''__typename''"
    and L: "requested kwargs w ''first'' = L" "0 \<le> L"
    and off: "requested kwargs w ''offset'' = int off"
  shows "\<exists>fuel it w1 it' w'.
      GraphQueryIterator_init maxQueryLimit (Function (paged_data keyName data withMeta)) args kwargs w
        = (Inr it, w1)
    \<and> calls w1 = calls w
    \<and> iterate fuel (Suc (Suc d)) it w1 =
        Some (Inr (if L = 0 then drop off data else take (nat L) (drop off data)), it', w')
    \<and> it_shouldStop it'
    \<and> (L = 0 \<longrightarrow> length (calls w') = length (calls w) + (length data - off) div nat maxQueryLimit + 1)"
proof -
  define p where "p = clamp_first maxQueryLimit L"
  define a where "a = length (heap w)"
  define it :: "'e GraphQueryIterator" where "it = \<lparr>it_queryFunction = paged_data keyName data withMeta, it_args = args,
           it_kwargs = kwargs\<lparr>kw_options := Some a,
              kw_fields := (case kw_fields kwargs of None \<Rightarrow> Some (PDict []) | Some flds \<Rightarrow> Some flds)\<rparr>,
           it_items = PList [], it_shouldStop = False,
           it_totalLimit = L, it_count = 0,
           it_totalCount = PNone, it_keyName = None\<rparr>"
  define w1 where "w1 = w\<lparr>heap := heap w @ [AList.update ''first'' p (own_options kwargs w)]\<rparr>"
  have init: "GraphQueryIterator_init maxQueryLimit (Function (paged_data keyName data withMeta)) args kwargs w
        = (Inr it, w1)"
    by (simp add: init_Function it_def w1_def p_def a_def L)
  have p1: "1 \<le> p" unfolding p_def using M L(2) by (rule clamp_first_pos)
  have "\<exists>fuel self' w'.
           iterate fuel (Suc (Suc d)) it w1 =
             Some (Inr (if L = 0 then drop off data else take (nat (L - 0)) (drop off data)),
                   self', w')
         \<and> it_shouldStop self'
         \<and> (L = 0 \<longrightarrow> length (calls w') = length (calls w1) + (length data - off) div nat p + 1)"
  proof (rule iterate_paged_data [where a = a])
    show "it_queryFunction it = paged_data keyName data withMeta" by (simp add: it_def)
    show "kw_options (it_kwargs it) = Some a" by (simp add: it_def)
    show "a < length (heap w1)" by (simp add: a_def w1_def)
    show "map_of (heap w1 ! a) ''offset'' = Some (int off)"
      by (simp add: a_def w1_def map_of_update own_options_requested off)
    show "map_of (heap w1 ! a) ''first'' = Some p"
      by (simp add: a_def w1_def map_of_update)
    show "1 \<le> p" by fact
    show "keyName \<noteq> ''meta''" "keyName \<noteq> ''__typename''" by fact+
    show "it_items it = PList []" "\<not> it_shouldStop it" "it_totalLimit it = L" "it_count it = 0"
      by (simp_all add: it_def)
    show "L = 0 \<or> 0 < L" using L(2) by auto
  qed
  then have "\<exists>fuel self' w'.
           iterate fuel (Suc (Suc d)) it w1 =
             Some (Inr (if L = 0 then drop off data else take (nat L) (drop off data)),
                   self', w')
         \<and> it_shouldStop self'
         \<and> (L = 0 \<longrightarrow> length (calls w') = length (calls w1) + (length data - off) div nat p + 1)"
    by (simp only: diff_zero)
  then obtain fuel it' w' where
    run: "iterate fuel (Suc (Suc d)) it w1 =
             Some (Inr (if L = 0 then drop off data else take (nat L) (drop off data)), it', w')"
    and stop: "it_shouldStop it'"
    and cnt: "L = 0 \<longrightarrow> length (calls w') = length (calls w1) + (length data - off) div nat p + 1"
    by blast
  have "L = 0 \<Longrightarrow> p = maxQueryLimit" by (simp add: p_def clamp_first_def)
  moreover have "calls w1 = calls w" by (simp add: w1_def)
  ultimately have "GraphQueryIterator_init maxQueryLimit (Function (paged_data keyName data withMeta)) args kwargs w
        = (Inr it, w1)
    \<and> calls w1 = calls w
    \<and> iterate fuel (Suc (Suc d)) it w1 =
        Some (Inr (if L = 0 then drop off data else take (nat L) (drop off data)), it', w')
    \<and> it_shouldStop it'
    \<and> (L = 0 \<longrightarrow> length (calls w') = length (calls w) + (length data - off) div nat maxQueryLimit + 1)"
    using init run stop cnt by simp
  then show ?thesis by blast
qed

lemma collect_paged_data:
  fixes w :: "'e world"
  assumes M: "1 \<le> maxQueryLimit"
    and key: "keyName \<noteq> ''meta''" "keyName \<noteq> ''__typename''"
    and L: "requested kwargs w ''first'' = L" "0 \<le> L"
    and off: "requested kwargs w ''offset'' = int off"
    and depth: "2 \<le> depth"
  shows "\<exists>n k. (\<forall>fuel\<ge>n. collect maxQueryLimit fuel depth (Function (paged_data keyName data withMeta))
                    args kwargs w =
                  Some (Inr (if L = 0 then drop off data else take (nat L) (drop off data)), k))
    \<and> (L = 0 \<longrightarrow> k = (length data - off) div nat maxQueryLimit + 1)"
proof -
  define d where "d = depth - 2"
  have d: "depth = Suc (Suc d)" using depth by (simp add: d_def)
  from iterate_from_init [OF M key L off, of data withMeta args d]
  obtain fuel it w1 it' w' where
    init: "GraphQueryIterator_init maxQueryLimit (Function (paged_data keyName data withMeta)) args kwargs w
        = (Inr it, w1)"
    and it: "iterate fuel (Suc (Suc d)) it w1 =
        Some (Inr (if L = 0 then drop off data else take (nat L) (drop off data)), it', w')"
    and c: "L = 0 \<longrightarrow> length (calls w') = length (calls w) + (length data - off) div nat maxQueryLimit + 1"
    by blast
  have "collect maxQueryLimit fuel' depth (Function (paged_data keyName data withMeta)) args kwargs w =
      Some (Inr (if L = 0 then drop off data else take (nat L) (drop off data)),
            length (calls w') - length (calls w))" if "fuel \<le> fuel'" for fuel'
  proof -
    from that have "fuel' = fuel + (fuel' - fuel)" by simp
    with iterate_mono [OF it, of "fuel' - fuel"]
    have "iterate fuel' (Suc (Suc d)) it w1 =
        Some (Inr (if L = 0 then drop off data else take (nat L) (drop off data)), it', w')"
      by simp
    then show ?thesis
      by (simp add: collect_def init d)
  qed
  moreover have "L = 0 \<longrightarrow>
      length (calls w') - length (calls w) = (length data - off) div nat maxQueryLimit + 1"
    using c by simp
  ultimately show ?thesis
    by blast
qed

lemma invoke_world:
  "invoke f args kw w = (r, w1) \<Longrightarrow>
   heap w1 = heap w \<and> calls w1 = calls w @ [(args, deref (heap w) kw)]"
  by (auto simp add: invoke_def split: prod.splits)

lemma fetch_frame:
  "(case GraphQueryIterator_fetch self w of
      (r, self', w') \<Rightarrow>
        length (calls w') = length (calls w) + 1 \<and> length (heap w') = length (heap w)
      \<and> it_kwargs self' = it_kwargs self \<and> it_queryFunction self' = it_queryFunction self
      \<and> it_args self' = it_args self)"
proof -
  obtain res w1 where inv: "invoke (it_queryFunction self) (it_args self) (it_kwargs self) w = (res, w1)"
    by (cases "invoke (it_queryFunction self) (it_args self) (it_kwargs self) w") auto
  note iw = invoke_world [OF inv]
  show ?thesis
    unfolding GraphQueryIterator_fetch_def inv
    by (simp add: Let_def iw split: sum.split option.split prod.split)
qed

lemma fetch_heap:
  "(case GraphQueryIterator_fetch self w of
      (r, self', w') \<Rightarrow>
        (case kw_options (it_kwargs self) of
           None \<Rightarrow> heap w' = heap w
         | Some a \<Rightarrow>
             map_of (heap w' ! a) ''first'' = map_of (heap w ! a) ''first''
           \<and> (\<forall>b. b \<noteq> a \<longrightarrow> heap w' ! b = heap w ! b)))"
proof -
  obtain res w1 where inv: "invoke (it_queryFunction self) (it_args self) (it_kwargs self) w = (res, w1)"
    by (cases "invoke (it_queryFunction self) (it_args self) (it_kwargs self) w") auto
  note iw = invoke_world [OF inv]
  have upd: "map_of ((heap w)[a := AList.update ''offset'' v (heap w ! a)] ! a) ''first''
      = map_of (heap w ! a) ''first''" for a v
    by (cases "a < length (heap w)") (simp_all add: map_of_update list_update_beyond)
  show ?thesis
    unfolding GraphQueryIterator_fetch_def inv
    by (simp add: Let_def iw upd split: sum.split option.split prod.split)
qed


lemma fetch_first_positive:
  assumes "GraphQueryIterator_fetch self w = (r, self', w')" and "first_positive self w"
  shows "first_positive self' w'"
  using fetch_frame [where self = self and w = w] fetch_heap [where self = self and w = w] assms
  by (auto simp add: first_positive_def split: option.splits)

lemma fetch_settles:
  assumes "first_positive self w"
  shows "(case GraphQueryIterator_fetch self w of
      (None, self', w') \<Rightarrow>
        (case py_len (it_items self') of
           Inl e \<Rightarrow> False
         | Inr n \<Rightarrow> n \<noteq> 0 \<or> it_shouldStop self')
    | (Some e, self', w') \<Rightarrow> True)"
proof -
  obtain res w1 where inv: "invoke (it_queryFunction self) (it_args self) (it_kwargs self) w = (res, w1)"
    by (cases "invoke (it_queryFunction self) (it_args self) (it_kwargs self) w") auto
  note iw = invoke_world [OF inv]
  from assms obtain a p where a: "kw_options (it_kwargs self) = Some a" "a < length (heap w)"
    and p: "map_of (heap w ! a) ''first'' = Some p" "1 \<le> p"
    by (auto simp add: first_positive_def split: option.splits)
  have len_slice: "py_slice_to v k = Inr v' \<Longrightarrow> \<exists>n. py_len v' = Inr n" for v k v'
    by (cases v) auto
  show ?thesis
    unfolding GraphQueryIterator_fetch_def inv
    using a p
    by (auto simp add: Let_def iw map_of_update dest: len_slice
        split: sum.split option.split prod.split)
qed


lemma init_BoundWrapper:
  "GraphQueryIterator_init maxQueryLimit (BoundWrapper obj f) args kwargs w =
   GraphQueryIterator_init maxQueryLimit (Function f) (obj # args) kwargs w"
  by (simp add: GraphQueryIterator_init_def)

lemma init_Wrapper:
  "GraphQueryIterator_init maxQueryLimit (Wrapper f) args kwargs w = (Inl AttributeError, w)"
  by (simp add: GraphQueryIterator_init_def)

lemma clamp_first_ge: "1 \<le> M \<Longrightarrow> 1 \<le> clamp_first M L"
  by (simp add: clamp_first_def)

lemma init_first_positive:
  assumes "1 \<le> maxQueryLimit"
    and "GraphQueryIterator_init maxQueryLimit queryFunction args kwargs w0 = (Inr self, w)"
  shows "first_positive self w"
proof (cases queryFunction)
  case (Function f)
  with assms(2) show ?thesis
    by (auto simp add: init_Function first_positive_def map_of_update clamp_first_ge [OF assms(1)])
next
  case (Wrapper f)
  with assms(2) show ?thesis by (simp add: init_Wrapper)
next
  case (BoundWrapper obj f)
  with assms(2) show ?thesis
    by (auto simp add: init_BoundWrapper init_Function first_positive_def map_of_update
        clamp_first_ge [OF assms(1)])
qed

lemma next_settled:
  assumes "py_len (it_items self) = Inr n" and "n \<noteq> 0 \<or> it_shouldStop self"
  shows "GraphQueryIterator_next (Suc d) self w = GraphQueryIterator_next (Suc 0) self w
       \<and> snd (snd (GraphQueryIterator_next (Suc d) self w)) = w"
  using assms by (auto split: sum.split)

lemma py_len_no_RecursionError: "py_len v \<noteq> Inl RecursionError"
  by (cases v) simp_all

lemma py_first_no_RecursionError: "py_first v \<noteq> Inl RecursionError"
  by (cases v rule: py_first.cases) simp_all

lemma py_rest_no_RecursionError: "py_rest v \<noteq> Inl RecursionError"
  by (cases v) simp_all

lemma py_slice_to_no_RecursionError: "py_slice_to v k \<noteq> Inl RecursionError"
  by (cases v) simp_all

lemma take_meta_no_RecursionError: "take_meta r \<noteq> Inl RecursionError"
  by (simp add: take_meta_def split: option.split pyval.split)

lemma fetch_RecursionError:
  "(case GraphQueryIterator_fetch self w of
      (r, self', w') \<Rightarrow>
        r = Some RecursionError \<longrightarrow>
        fst (it_queryFunction self (it_args self) (deref (heap w) (it_kwargs self)) (env w))
          = Inl RecursionError)"
  unfolding GraphQueryIterator_fetch_def
  using take_meta_no_RecursionError py_len_no_RecursionError py_slice_to_no_RecursionError
  by (simp add: Let_def invoke_def split: sum.split option.split prod.split)

lemma next_settled_no_RecursionError:
  assumes "py_len (it_items self) = Inr n" and "n \<noteq> 0 \<or> it_shouldStop self"
  shows "fst (GraphQueryIterator_next (Suc d) self w) \<noteq> Inl RecursionError"
  using assms py_first_no_RecursionError [of "it_items self"]
    py_rest_no_RecursionError [of "it_items self"]
  by (auto split: sum.split)

lemma next_two:
  assumes "first_positive self w"
  shows "GraphQueryIterator_next (Suc (Suc d)) self w = GraphQueryIterator_next (Suc (Suc 0)) self w
       \<and> length (calls (snd (snd (GraphQueryIterator_next (Suc (Suc d)) self w))))
           \<le> length (calls w) + 1
       \<and> (fst (GraphQueryIterator_next (Suc (Suc d)) self w) = Inl RecursionError \<longrightarrow>
            fst (it_queryFunction self (it_args self) (deref (heap w) (it_kwargs self)) (env w))
              = Inl RecursionError)"
proof (cases "py_len (it_items self)")
  case (Inl e)
  with py_len_no_RecursionError [of "it_items self"] show ?thesis by simp
next
  case (Inr n)
  show ?thesis
  proof (cases "n \<noteq> 0 \<or> it_shouldStop self")
    case True
    have a: "GraphQueryIterator_next (Suc (Suc d)) self w = GraphQueryIterator_next (Suc 0) self w"
      and b: "snd (snd (GraphQueryIterator_next (Suc (Suc d)) self w)) = w"
      and c: "GraphQueryIterator_next (Suc (Suc 0)) self w = GraphQueryIterator_next (Suc 0) self w"
      using next_settled [OF Inr True] by blast+
    have e: "fst (GraphQueryIterator_next (Suc (Suc d)) self w) \<noteq> Inl RecursionError"
      using Inr True by (rule next_settled_no_RecursionError)
    show ?thesis
      by (simp only: b e) (simp only: a c, simp)
  next
    case False
    obtain r self' w' where f: "GraphQueryIterator_fetch self w = (r, self', w')"
      by (cases "GraphQueryIterator_fetch self w") auto
    from fetch_frame [where self = self and w = w] f
    have c: "length (calls w') = length (calls w) + 1" by simp
    from fetch_RecursionError [where self = self and w = w] f
    have re: "r = Some RecursionError \<longrightarrow>
        fst (it_queryFunction self (it_args self) (deref (heap w) (it_kwargs self)) (env w))
          = Inl RecursionError" by simp
    show ?thesis
    proof (cases r)
      case (Some e)
      with Inr False f c re show ?thesis by simp
    next
      case None
      with fetch_settles [OF assms] f obtain m where
        m: "py_len (it_items self') = Inr m" "m \<noteq> 0 \<or> it_shouldStop self'"
        by (auto split: sum.splits)
      have a: "GraphQueryIterator_next (Suc d) self' w' = GraphQueryIterator_next (Suc 0) self' w'"
        and b: "snd (snd (GraphQueryIterator_next (Suc d) self' w')) = w'"
        using next_settled [OF m] by blast+
      have e: "fst (GraphQueryIterator_next (Suc d) self' w') \<noteq> Inl RecursionError"
        using m by (rule next_settled_no_RecursionError)
      have n1: "GraphQueryIterator_next (Suc (Suc d)) self w = GraphQueryIterator_next (Suc d) self' w'"
        and n2: "GraphQueryIterator_next (Suc (Suc 0)) self w = GraphQueryIterator_next (Suc 0) self' w'"
        using Inr False f None by simp_all
      show ?thesis
        by (simp only: n1 n2 b e) (simp only: a c, simp)
    qed
  qed
qed

lemma next_first_positive:
  "first_positive self w \<Longrightarrow> GraphQueryIterator_next depth self w = (r, self', w') \<Longrightarrow>
   first_positive self' w'"
proof (induction depth arbitrary: self w)
  case 0
  then show ?case by simp
next
  case (Suc depth)
  show ?case
  proof (cases "py_len (it_items self)")
    case (Inl e)
    with Suc.prems show ?thesis by simp
  next
    case (Inr n)
    show ?thesis
    proof (cases "n \<noteq> 0")
      case True
      with Inr Suc.prems show ?thesis
        by (auto simp add: first_positive_def split: sum.splits)
    next
      case n0: False
      show ?thesis
      proof (cases "it_shouldStop self")
        case True
        with Inr n0 Suc.prems show ?thesis by simp
      next
        case False
        obtain r1 self1 w1 where f: "GraphQueryIterator_fetch self w = (r1, self1, w1)"
          by (cases "GraphQueryIterator_fetch self w") auto
        from fetch_first_positive [OF f Suc.prems(1)] have fp: "first_positive self1 w1" .
        show ?thesis
        proof (cases r1)
          case None
          with Inr n0 False f Suc.prems(2) have "GraphQueryIterator_next depth self1 w1 = (r, self', w')"
            by simp
          from Suc.IH [OF fp this] show ?thesis .
        next
          case (Some e)
          with Inr n0 False f Suc.prems(2) fp show ?thesis by simp
        qed
      qed
    qed
  qed
qed

lemma nexts_first_positive:
  "first_positive self w \<Longrightarrow> nexts depths self w = (self', w') \<Longrightarrow> first_positive self' w'"
proof (induction depths arbitrary: self w)
  case Nil
  then show ?case by simp
next
  case (Cons depth depths)
  obtain r self1 w1 where n: "GraphQueryIterator_next depth self w = (r, self1, w1)"
    by (cases "GraphQueryIterator_next depth self w") auto
  from next_first_positive [OF Cons.prems(1) n] have "first_positive self1 w1" .
  moreover from Cons.prems(2) n have "nexts depths self1 w1 = (self', w')" by simp
  ultimately show ?case by (rule Cons.IH)
qed

lemmas run_simps =
  GraphQueryIterator_init_def deepcopy_def default_options_def setdefault_def clamp_first_def
  GraphQueryIterator_fetch_def invoke_def deref_def take_meta_def response_page_def
  paged_data_def slice_to_def Let_def

lemma invoke_env:
  "invoke f args kw w = (r, w1) \<Longrightarrow> env w1 = snd (f args (deref (heap w) kw) (env w))"
  by (auto simp add: invoke_def split: prod.splits)

lemma fetch_invocation:
  "(case GraphQueryIterator_fetch self w of
      (r, self', w') \<Rightarrow>
        calls w' = calls w @ [(it_args self, deref (heap w) (it_kwargs self))]
      \<and> env w' = snd (it_queryFunction self (it_args self) (deref (heap w) (it_kwargs self)) (env w)))"
proof -
  obtain res w1 where inv: "invoke (it_queryFunction self) (it_args self) (it_kwargs self) w = (res, w1)"
    by (cases "invoke (it_queryFunction self) (it_args self) (it_kwargs self) w") auto
  note iw = invoke_world [OF inv] invoke_env [OF inv]
  show ?thesis
    unfolding GraphQueryIterator_fetch_def inv
    by (simp add: Let_def iw split: sum.split option.split prod.split)
qed

lemma fetch_scalar:
  assumes qf: "it_queryFunction self = scalar_query v"
    and a: "kw_options (it_kwargs self) = Some a" "a < length (heap w)"
    and opts: "map_of (heap w ! a) ''offset'' = Some off" "map_of (heap w ! a) ''first'' = Some p"
  shows "GraphQueryIterator_fetch self w =
     (None,
      self\<lparr>it_keyName := Some ''__typename'',
           it_items := PList
             (if it_totalLimit self \<noteq> 0 \<and> it_totalLimit self \<le> it_count self + 1
              then slice_to (it_totalLimit self - it_count self) [v] else [v]),
           it_shouldStop := (it_shouldStop self \<or> 1 < p
              \<or> (it_totalLimit self \<noteq> 0 \<and> it_totalLimit self \<le> it_count self + 1))\<rparr>,
      w\<lparr>calls := calls w @ [(it_args self, deref (heap w) (it_kwargs self))],
        heap := (heap w)[a := AList.update ''offset'' (off + 1) (heap w ! a)]\<rparr>)"
  unfolding GraphQueryIterator_fetch_def
  using a opts
  by (simp add: qf invoke_def scalar_query_def take_meta_def response_page_def Let_def map_of_update)

lemma scalar_query_once:
  fixes w :: "'e world"
  assumes M: "2 \<le> maxQueryLimit" and L: "0 \<le> requested kwargs w ''first''"
  shows "\<exists>it w1 s w2.
      GraphQueryIterator_init maxQueryLimit (Function (scalar_query v)) args kwargs w = (Inr it, w1)
    \<and> GraphQueryIterator_next (Suc (Suc d)) it w1 = (Inr v, s, w2)
    \<and> it_keyName s = Some ''__typename'' \<and> it_shouldStop s \<and> it_items s = PList []
    \<and> length (calls w2) = length (calls w) + 1
    \<and> GraphQueryIterator_next (Suc d') s w2 = (Inl StopIteration, s, w2)"
proof -
  define L where "L = requested kwargs w ''first''"
  define p where "p = clamp_first maxQueryLimit L"
  define a where "a = length (heap w)"
  define it :: "'e GraphQueryIterator" where "it = \<lparr>it_queryFunction = scalar_query v, it_args = args,
           it_kwargs = kwargs\<lparr>kw_options := Some a,
              kw_fields := (case kw_fields kwargs of None \<Rightarrow> Some (PDict []) | Some flds \<Rightarrow> Some flds)\<rparr>,
           it_items = PList [], it_shouldStop = False,
           it_totalLimit = L, it_count = 0,
           it_totalCount = PNone, it_keyName = None\<rparr>"
  define w1 where "w1 = w\<lparr>heap := heap w @ [AList.update ''first'' p (own_options kwargs w)]\<rparr>"
  have init: "GraphQueryIterator_init maxQueryLimit (Function (scalar_query v)) args kwargs w
        = (Inr it, w1)"
    by (simp add: init_Function it_def w1_def p_def a_def L_def)
  define stop where "stop \<longleftrightarrow> 1 < p \<or> (L \<noteq> 0 \<and> L \<le> 1)"
  have stop: stop
    using M L by (auto simp add: stop_def p_def clamp_first_def L_def)
  define s1 where "s1 = it\<lparr>it_keyName := Some ''__typename'',
           it_items := PList (if L \<noteq> 0 \<and> L \<le> 1 then slice_to L [v] else [v]),
           it_shouldStop := stop\<rparr>"
  define w2 where "w2 = w1\<lparr>calls := calls w1 @ [(it_args it, deref (heap w1) (it_kwargs it))],
        heap := (heap w1)[a := AList.update ''offset'' (requested kwargs w ''offset'' + 1) (heap w1 ! a)]\<rparr>"
  have fetch: "GraphQueryIterator_fetch it w1 = (None, s1, w2)"
    using fetch_scalar [of it v a w1 "requested kwargs w ''offset''" p]
    by (simp add: it_def w1_def a_def s1_def w2_def stop_def map_of_update own_options_requested)
  have items: "it_items s1 = PList [v]"
    using L by (auto simp add: s1_def slice_to_def L_def)
  let ?s = "s1\<lparr>it_items := PList [], it_count := it_count s1 + 1\<rparr>"
  have "GraphQueryIterator_next (Suc (Suc d)) it w1 = GraphQueryIterator_next (Suc d) s1 w2"
    by (rule next_fetch [OF _ _ fetch]) (simp_all add: it_def)
  also have "\<dots> = (Inr v, ?s, w2)"
    using items by (rule next_pop)
  finally have n: "GraphQueryIterator_next (Suc (Suc d)) it w1 = (Inr v, ?s, w2)" .
  have "GraphQueryIterator_next (Suc d') ?s w2 = (Inl StopIteration, ?s, w2)"
    by (rule next_stop) (simp_all add: s1_def stop)
  moreover have "it_keyName ?s = Some ''__typename''" "it_shouldStop ?s" "it_items ?s = PList []"
    "length (calls w2) = length (calls w) + 1"
    by (simp_all add: s1_def stop w2_def w1_def)
  ultimately show ?thesis
    using init n by blast
qed

lemma fetch_keeps:
  assumes "GraphQueryIterator_fetch self w = (r, self', w')"
  shows "length (heap w') = length (heap w) \<and> it_kwargs self' = it_kwargs self
       \<and> (\<forall>b. kw_options (it_kwargs self) \<noteq> Some b \<longrightarrow> heap w' ! b = heap w ! b)"
  using fetch_frame [where self = self and w = w] fetch_heap [where self = self and w = w] assms
  by (auto split: option.splits)

lemma next_keeps:
  "GraphQueryIterator_next depth self w = (r, self', w') \<Longrightarrow>
   length (heap w') = length (heap w) \<and> it_kwargs self' = it_kwargs self
   \<and> (\<forall>b. kw_options (it_kwargs self) \<noteq> Some b \<longrightarrow> heap w' ! b = heap w ! b)"
proof (induction depth arbitrary: self w)
  case 0
  then show ?case by simp
next
  case (Suc depth)
  show ?case
  proof (cases "py_len (it_items self)")
    case (Inl e)
    with Suc.prems show ?thesis by simp
  next
    case (Inr n)
    show ?thesis
    proof (cases "n \<noteq> 0 \<or> it_shouldStop self")
      case True
      with Inr Suc.prems show ?thesis
        by (auto split: sum.splits if_splits)
    next
      case False
      obtain r1 self1 w1 where f: "GraphQueryIterator_fetch self w = (r1, self1, w1)"
        by (cases "GraphQueryIterator_fetch self w") auto
      note k = fetch_keeps [OF f]
      show ?thesis
      proof (cases r1)
        case None
        with Inr False f Suc.prems have "GraphQueryIterator_next depth self1 w1 = (r, self', w')"
          by simp
        from Suc.IH [OF this] k show ?thesis by simp
      next
        case (Some e)
        with Inr False f Suc.prems k show ?thesis by auto
      qed
    qed
  qed
qed

lemma nexts_keeps:
  "nexts depths self w = (self', w') \<Longrightarrow>
   length (heap w') = length (heap w) \<and> it_kwargs self' = it_kwargs self
   \<and> (\<forall>b. kw_options (it_kwargs self) \<noteq> Some b \<longrightarrow> heap w' ! b = heap w ! b)"
proof (induction depths arbitrary: self w)
  case Nil
  then show ?case by simp
next
  case (Cons depth depths)
  obtain r self1 w1 where n: "GraphQueryIterator_next depth self w = (r, self1, w1)"
    by (cases "GraphQueryIterator_next depth self w") auto
  with Cons.prems have "nexts depths self1 w1 = (self', w')" by simp
  from Cons.IH [OF this] next_keeps [OF n] show ?case by simp
qed

lemma iterate_keeps:
  "iterate fuel depth self w = Some (r, self', w') \<Longrightarrow>
   length (heap w') = length (heap w) \<and> it_kwargs self' = it_kwargs self
   \<and> (\<forall>b. kw_options (it_kwargs self) \<noteq> Some b \<longrightarrow> heap w' ! b = heap w ! b)"
proof (induction fuel arbitrary: self w r)
  case 0
  then show ?case by simp
next
  case (Suc fuel)
  obtain res self1 w1 where n: "GraphQueryIterator_next depth self w = (res, self1, w1)"
    by (cases "GraphQueryIterator_next depth self w") auto
  note k = next_keeps [OF n]
  show ?case
  proof (cases res)
    case (Inl e)
    with Suc.prems n k show ?thesis by (cases e) auto
  next
    case (Inr item)
    with Suc.prems n obtain r' where "iterate fuel depth self1 w1 = Some (r', self', w')"
      by (auto split: option.splits sum.splits)
    from Suc.IH [OF this] k show ?thesis by simp
  qed
qed

lemma init_keeps:
  assumes "GraphQueryIterator_init maxQueryLimit queryFunction args kwargs w = (Inr self, w1)"
  shows "kw_options (it_kwargs self) = Some (length (heap w))
       \<and> length (heap w1) = Suc (length (heap w))
       \<and> (\<forall>b < length (heap w). heap w1 ! b = heap w ! b)
       \<and> calls w1 = calls w \<and> env w1 = env w"
proof (cases queryFunction)
  case (Function f)
  with assms show ?thesis
    by (auto simp add: init_Function nth_append)
next
  case (Wrapper f)
  with assms show ?thesis by (simp add: init_Wrapper)
next
  case (BoundWrapper obj f)
  with assms show ?thesis
    by (auto simp add: init_BoundWrapper init_Function nth_append)
qed

lemma APICall_eq:
  assumes a: "kw_options (qr_kwargs self) = Some a" "a < length (heap w)"
    and first: "map_of (heap w ! a) ''first'' = Some L"
  shows "APICall maxQueryLimit self offset w =
     (case invoke (qr_queryFunction self) (qr_args self)
             ((qr_kwargs self)\<lparr>kw_options := Some (length (heap w))\<rparr>)
             (w\<lparr>heap := heap w @ [AList.update ''first'' (clamp_first maxQueryLimit L)
                                     (AList.update ''offset'' offset (heap w ! a))]\<rparr>) of
        (Inl e, w4) \<Rightarrow> (Some e, self, w4)
      | (Inr data, w4) \<Rightarrow>
          (case take_meta data of
             Inl e \<Rightarrow> (Some e, self, w4)
           | Inr (totalCount, data') \<Rightarrow>
               (let self1 = (case totalCount of None \<Rightarrow> self | Some c \<Rightarrow> self\<lparr>qr_totalCount := c\<rparr>);
                    self2 = (case map_of data' ''__typename'' of
                               Some v \<Rightarrow> self1\<lparr>qr_keyName := Some ''__typename'', qr_list := [v],
                                                 qr_fetchedAll := True\<rparr>
                             | None \<Rightarrow>
                                 (case data' of
                                    [] \<Rightarrow> self1
                                  | (keyName, items) # _ \<Rightarrow>
                                      self1\<lparr>qr_keyName := Some keyName, qr_items := items\<rparr>))
                in (None, self2\<lparr>qr_currentOffset := Some offset\<rparr>, w4))))"
  unfolding APICall_def
  using a first
  by (simp add: deepcopy_Some [OF a(1)] Let_def map_of_update)

lemma APICall_frame:
  assumes a: "kw_options (qr_kwargs self) = Some a" "a < length (heap w)"
    and first: "map_of (heap w ! a) ''first'' = Some L"
  shows "(case APICall maxQueryLimit self offset w of
      (e, self', w') \<Rightarrow>
        heap w' = heap w @ [AList.update ''first'' (clamp_first maxQueryLimit L)
                              (AList.update ''offset'' offset (heap w ! a))]
      \<and> calls w' = calls w @ [(qr_args self,
            \<lparr>kw_options = Some (AList.update ''first'' (clamp_first maxQueryLimit L)
                              (AList.update ''offset'' offset (heap w ! a))),
             kw_fields = kw_fields (qr_kwargs self), kw_others = kw_others (qr_kwargs self)\<rparr>)]
      \<and> qr_kwargs self' = qr_kwargs self \<and> qr_queryFunction self' = qr_queryFunction self
      \<and> qr_args self' = qr_args self)"
proof -
  let ?kw = "(qr_kwargs self)\<lparr>kw_options := Some (length (heap w))\<rparr>"
  let ?w3 = "w\<lparr>heap := heap w @ [AList.update ''first'' (clamp_first maxQueryLimit L)
                                     (AList.update ''offset'' offset (heap w ! a))]\<rparr>"
  obtain res w4 where inv: "invoke (qr_queryFunction self) (qr_args self) ?kw ?w3 = (res, w4)"
    by (cases "invoke (qr_queryFunction self) (qr_args self) ?kw ?w3") auto
  note iw = invoke_world [OF inv]
  show ?thesis
    unfolding APICall_eq [OF assms] inv
    by (simp add: iw Let_def deref_def split: sum.split option.split prod.split list.split)
qed

lemma result_init_eq:
  "GraphQueryResult_init maxQueryLimit queryFunction args kwargs w =
     (case request_totalCount (kw_fields kwargs) of
        Inl e \<Rightarrow> (Inl e, w\<lparr>heap := heap w @ [own_options kwargs w]\<rparr>)
      | Inr flds \<Rightarrow>
          (case APICall maxQueryLimit
             \<lparr>qr_queryFunction = queryFunction,
              qr_args = args,
              qr_kwargs = kwargs\<lparr>kw_options := Some (length (heap w)), kw_fields := flds\<rparr>,
              qr_limit = requested kwargs w ''first'',
              qr_offset = requested kwargs w ''offset'',
              qr_fetchedAll = False,
              qr_items = PNone,
              qr_currentOffset = None,
              qr_totalCount = PNone,
              qr_keyName = None,
              qr_list = []\<rparr> (requested kwargs w ''offset'')
              (w\<lparr>heap := heap w @ [own_options kwargs w]\<rparr>) of
        (Some e, self, w3) \<Rightarrow> (Inl e, w3)
      | (None, self, w3) \<Rightarrow> (Inr self, w3)))"
proof -
  obtain kw w1 where dc: "deepcopy kwargs w = (kw, w1)"
    by (cases "deepcopy kwargs w") auto
  note cd = copy_and_default [OF dc]
  have kw: "kw\<lparr>kw_options := Some (length (heap w))\<rparr> = kwargs\<lparr>kw_options := Some (length (heap w))\<rparr>"
    using dc by (cases "kw_options kwargs") (auto simp add: deepcopy_def)
  have kw': "kw\<lparr>kw_options := Some (length (heap w)), kw_fields := x\<rparr>
      = kwargs\<lparr>kw_options := Some (length (heap w)), kw_fields := x\<rparr>" for x
    using arg_cong [OF kw, of "kw_fields_update (\<lambda>_. x)"] by simp
  show ?thesis
    unfolding GraphQueryResult_init_def
    by (simp add: dc cd own_options_requested kw' split: sum.split)
qed

lemma request_totalCount_cases:
  "request_totalCount flds = Inl AttributeError \<or> (\<exists>f. request_totalCount flds = Inr f)"
  by (auto simp add: request_totalCount_def split: option.splits pyval.splits)

lemma request_totalCount_dict:
  assumes "map_of d ''meta'' = None \<or> (\<exists>m. map_of d ''meta'' = Some (PDict m))"
  shows "\<exists>d' m'. request_totalCount (Some (PDict d)) = Inr (Some (PDict d'))
       \<and> map_of d' ''meta'' = Some (PDict m') \<and> map_of m' ''totalCount'' \<noteq> None
       \<and> (\<forall>k. k \<noteq> ''meta'' \<longrightarrow> map_of d' k = map_of d k)"
  using assms
  by (auto simp add: request_totalCount_def map_of_setdefault map_of_update)

lemma APICall_totalCount:
  assumes a: "kw_options (qr_kwargs self) = Some a" "a < length (heap w)"
    and first: "map_of (heap w ! a) ''first'' = Some L"
  shows "(case APICall maxQueryLimit self offset w of
      (e, self', w') \<Rightarrow>
        (\<forall>resp. fst (qr_queryFunction self (qr_args self)
                      \<lparr>kw_options = Some (AList.update ''first'' (clamp_first maxQueryLimit L)
                              (AList.update ''offset'' offset (heap w ! a))),
                       kw_fields = kw_fields (qr_kwargs self),
                       kw_others = kw_others (qr_kwargs self)\<rparr> (env w)) = Inr resp \<longrightarrow> e = None \<longrightarrow>
           (map_of resp ''meta'' = None \<longrightarrow> qr_totalCount self' = qr_totalCount self)
         \<and> (\<forall>m c. map_of resp ''meta'' = Some (PDict m) \<longrightarrow> map_of m ''totalCount'' = Some c \<longrightarrow>
                qr_totalCount self' = c)))"
  unfolding APICall_eq [OF a first]
  by (auto simp add: invoke_def deref_def take_meta_def Let_def
      split: prod.split sum.split option.split list.split)

lemma result_init_keeps:
  assumes "GraphQueryResult_init maxQueryLimit Q args kwargs w = (Inr r, w1)"
  shows "kw_options (qr_kwargs r) = Some (length (heap w))
       \<and> length (heap w1) = Suc (Suc (length (heap w)))
       \<and> (\<forall>b < length (heap w). heap w1 ! b = heap w ! b)
       \<and> heap w1 ! length (heap w) = own_options kwargs w
       \<and> qr_queryFunction r = Q \<and> qr_args r = args"
proof -
  let ?w2 = "w\<lparr>heap := heap w @ [own_options kwargs w]\<rparr>"
  from assms obtain f where f: "request_totalCount (kw_fields kwargs) = Inr f"
    by (auto simp add: result_init_eq split: sum.splits)
  let ?r0 = "\<lparr>qr_queryFunction = Q, qr_args = args,
              qr_kwargs = kwargs\<lparr>kw_options := Some (length (heap w)), kw_fields := f\<rparr>,
              qr_limit = requested kwargs w ''first'', qr_offset = requested kwargs w ''offset'',
              qr_fetchedAll = False, qr_items = PNone, qr_currentOffset = None,
              qr_totalCount = PNone, qr_keyName = None, qr_list = []\<rparr>"
  from assms f have api: "APICall maxQueryLimit ?r0 (requested kwargs w ''offset'') ?w2 = (None, r, w1)"
    by (auto simp add: result_init_eq split: prod.splits option.splits)
  from APICall_frame [where self = ?r0 and a = "length (heap w)" and w = ?w2
        and L = "requested kwargs w ''first''" and maxQueryLimit = maxQueryLimit
        and offset = "requested kwargs w ''offset''"] api
  show ?thesis
    by (auto simp add: own_options_requested nth_append)
qed

lemma FetchAll_keeps:
  assumes "FetchAll maxQueryLimit fuel depth self w = Some (e, self', w')"
  shows "length (heap w) \<le> length (heap w') \<and> (\<forall>b < length (heap w). heap w' ! b = heap w ! b)
       \<and> qr_kwargs self' = qr_kwargs self"
proof (cases "qr_fetchedAll self")
  case True
  with assms show ?thesis by (simp add: FetchAll_def)
next
  case False
  let ?init = "GraphQueryIterator_init maxQueryLimit (Function (qr_queryFunction self))
                (qr_args self) (qr_kwargs self) w"
  obtain it w1 where init: "?init = (Inr it, w1)"
    by (simp add: init_Function)
  note ik = init_keeps [OF init]
  from assms False init obtain r it' where it: "iterate fuel depth it w1 = Some (r, it', w')"
    and s: "qr_kwargs self' = qr_kwargs self"
    by (auto simp add: FetchAll_def split: option.splits sum.splits)
  from iterate_keeps [OF it] ik s show ?thesis
    by auto
qed

lemma request_totalCount_Inr_iff:
  "(\<exists>f. request_totalCount flds = Inr f) \<longleftrightarrow>
   (flds = None \<or> (\<exists>d. flds = Some (PDict d)
       \<and> (map_of d ''meta'' = None \<or> (\<exists>m. map_of d ''meta'' = Some (PDict m)))))"
  by (auto simp add: request_totalCount_def map_of_setdefault split: option.splits pyval.splits)

lemma result_init_raises:
  "request_totalCount (kw_fields kwargs) = Inl e \<Longrightarrow>
   GraphQueryResult_init maxQueryLimit Q args kwargs w
     = (Inl e, w\<lparr>heap := heap w @ [own_options kwargs w]\<rparr>)"
  by (simp add: result_init_eq)

lemma result_init_paged:
  fixes w :: "'e world"
  assumes key: "keyName \<noteq> ''meta''" "keyName \<noteq> ''__typename''"
    and L: "requested kwargs w ''first'' = L" and off: "requested kwargs w ''offset'' = int off"
    and f: "request_totalCount (kw_fields kwargs) = Inr f"
  shows "\<exists>r w'. GraphQueryResult_init maxQueryLimit (paged_data keyName data withMeta) args kwargs w
                   = (Inr r, w')
            \<and> length (calls w') = length (calls w) + 1
            \<and> qr_items r = PList (take (nat (clamp_first maxQueryLimit L)) (drop off data))
            \<and> qr_keyName r = Some keyName
            \<and> qr_list r = [] \<and> \<not> qr_fetchedAll r"
proof -
  note api = APICall_eq [where a = "length (heap w)" and L = L
      and w = "w\<lparr>heap := heap w @ [own_options kwargs w]\<rparr>"]
  note inv = invoke_paged_data [where a = "Suc (length (heap w))" and off = "int off"
      and p = "clamp_first maxQueryLimit L"]
  show ?thesis
    using key
    by (simp add: result_init_eq f L off api own_options_requested inv nth_append
        map_of_update take_meta_paged Let_def)
qed

lemma result_init_scalar:
  fixes w :: "'e world"
  assumes L: "requested kwargs w ''first'' = L" and off: "requested kwargs w ''offset'' = int off"
    and f: "request_totalCount (kw_fields kwargs) = Inr f"
  shows "\<exists>r w'. GraphQueryResult_init maxQueryLimit (scalar_query v) args kwargs w = (Inr r, w')
            \<and> length (calls w') = length (calls w) + 1
            \<and> qr_keyName r = Some ''__typename''
            \<and> qr_list r = [v] \<and> qr_fetchedAll r"
proof -
  note api = APICall_eq [where a = "length (heap w)" and L = L
      and w = "w\<lparr>heap := heap w @ [own_options kwargs w]\<rparr>"]
  show ?thesis
    by (simp add: result_init_eq f L off api own_options_requested
        invoke_def scalar_query_def take_meta_def Let_def)
qed

lemma held_buffer:
  "\<not> qr_fetchedAll r \<Longrightarrow> qr_items r = PList page \<Longrightarrow> QueryResult_held r = page"
  by (simp add: QueryResult_held_def)

lemma held_list: "qr_fetchedAll r \<Longrightarrow> QueryResult_held r = qr_list r"
  by (simp add: QueryResult_held_def)

lemma getitem_held:
  "i < length (QueryResult_held r) \<Longrightarrow> QueryResult_getitem r (int i) = Inr (QueryResult_held r ! i)"
  "QueryResult_getitem r (int (length (QueryResult_held r))) = Inl IndexError"
  by (simp_all add: QueryResult_getitem_def Let_def)

section \<open>The claims\<close>

text \<open>
  Claim C6. For a scalar return type (Int, Float, String, Boolean, ID, Data, Any, Void,
  DateTime) the selection is empty whatever \<open>fields\<close> is, and in the query handed to
  the collaborator the inner operation name and its arguments are followed by the
  closing line only: there is no selection block. For any other return type with no
  fields supplied (\<open>None\<close> or empty) the selection is exactly \<open>{ __typename }\<close>, and
  that is what follows the inner operation in the query.
\<close>

theorem query_selection:
  "(returnType \<in> set [''Int'', ''Float'', ''String'', ''Boolean'', ''ID'',
                        ''Data'', ''Any'', ''Void'', ''DateTime''] \<longrightarrow>
      queryFields returnType flds = Inr [] \<and>
      snd (CallSimpleGraphAPI (\<lambda>q v t e. (Inr [], q)) queryOrMutation operationName ps
             returnType flds timeout e0) =
        queryOrMutation @ '' '' @ operationName @ queryParameters ps @ '' {'' @ [CHR 0x0A]
          @ ''    '' @ operationName
          @ (if queryArguments ps = [] then [] else ''('' @ queryArguments ps @ '')'')
          @ [CHR 0x0A] @ ''}'')
   \<and> (returnType \<notin> set [''Int'', ''Float'', ''String'', ''Boolean'', ''ID'',
                        ''Data'', ''Any'', ''Void'', ''DateTime''] \<longrightarrow> \<not> truthy flds \<longrightarrow>
      queryFields returnType flds = Inr ''{ __typename }'' \<and>
      snd (CallSimpleGraphAPI (\<lambda>q v t e. (Inr [], q)) queryOrMutation operationName ps
             returnType flds timeout e0) =
        queryOrMutation @ '' '' @ operationName @ queryParameters ps @ '' {'' @ [CHR 0x0A]
          @ ''    '' @ operationName
          @ (if queryArguments ps = [] then [] else ''('' @ queryArguments ps @ '') '')
          @ ''{ __typename }'' @ [CHR 0x0A] @ ''}'')"
  by (simp add: CallSimpleGraphAPI_def queryFields_def query_def IsScalarType_def Let_def)

theorem query_selection_witness:
  "queryFields ''Int'' (PDict [(''id'', PNone)]) = Inr [] \<and>
   snd (CallSimpleGraphAPI (\<lambda>q v t e. (Inr [], q)) ''query'' ''GetCount''
          [(''id'', ''String!'', PStr ''a'')] ''Int'' (PDict [(''id'', PNone)]) None []) =
     ''query GetCount($id: String!) {'' @ [CHR 0x0A] @ ''    GetCount(id: $id)'' @ [CHR 0x0A] @ ''}'' \<and>
   queryFields ''Body'' PNone = Inr ''{ __typename }'' \<and>
   snd (CallSimpleGraphAPI (\<lambda>q v t e. (Inr [], q)) ''query'' ''ListBodies'' [] ''Body'' PNone None []) =
     ''query ListBodies {'' @ [CHR 0x0A] @ ''    ListBodies{ __typename }'' @ [CHR 0x0A] @ ''}''"
  using query_selection [of "''Int''" "PDict [(''id'', PNone)]" "''query''" "''GetCount''"
      "[(''id'', ''String!'', PStr ''a'')]" None "[]"]
    query_selection [of "''Body''" PNone "''query''" "''ListBodies''" "[]" None "[]"]
  by (simp add: queryParameters_def queryArguments_def)

text \<open>
  Claim C1. For a requested limit \<open>L > 0\<close> (\<open>options['first']\<close>) and a data set
  served in slices by offset and first, constructing an iterator and iterating it to
  completion returns, for every sufficient fuel, exactly the first \<open>min L D\<close> items of
  the data set, in the server's order. The run starts at the beginning of the data set
  (offset absent or 0), \<open>maxQueryLimit\<close> is at least 1 and the stack allows the two
  frames of \<open>next\<close>. (For a start offset \<open>off\<close>, \<open>collect_paged_data\<close> above gives
  \<open>take L (drop off data)\<close>.)
\<close>

theorem iterate_to_limit:
  fixes w :: "'e world"
  assumes "0 < L" and "1 \<le> maxQueryLimit" and "2 \<le> depth"
    and "keyName \<noteq> ''meta''" and "keyName \<noteq> ''__typename''"
    and "requested kwargs w ''first'' = L" and "requested kwargs w ''offset'' = 0"
  shows "\<exists>n k. \<forall>fuel\<ge>n.
           collect maxQueryLimit fuel depth (Function (paged_data keyName data withMeta)) args kwargs w
             = Some (Inr (take (nat L) data), k)
         \<and> length (take (nat L) data) = min (nat L) (length data)"
proof -
  from assms have "0 \<le> L" "requested kwargs w ''offset'' = int 0" by simp_all
  from collect_paged_data [OF assms(2,4,5,6) this assms(3), of data withMeta args] assms(1)
  show ?thesis
    by (auto simp add: min.commute)
qed

theorem iterate_to_limit_witness:
  "(\<exists>n k. \<forall>fuel\<ge>n.
     collect 10 fuel 2 (Function (paged_data ''bodies'' (map PInt [1 ..< 26]) True)) []
       \<lparr>kw_options = Some 0, kw_fields = None, kw_others = []\<rparr>
       \<lparr>heap = [[(''first'', 7)]], calls = [], env = ()\<rparr>
       = Some (Inr (take (nat 7) (map PInt [1 ..< 26])), k)
     \<and> length (take (nat 7) (map PInt [1 ..< 26])) = min (nat 7) (length (map PInt [1 ..< 26])))
   \<and> collect 10 8 2 (Function (paged_data ''bodies'' (map PInt [1 ..< 26]) True)) []
       \<lparr>kw_options = Some 0, kw_fields = None, kw_others = []\<rparr>
       \<lparr>heap = [[(''first'', 7)]], calls = [], env = ()\<rparr>
       = Some (Inr [PInt 1, PInt 2, PInt 3, PInt 4, PInt 5, PInt 6, PInt 7], 1)"
proof
  show "\<exists>n k. \<forall>fuel\<ge>n.
     collect 10 fuel 2 (Function (paged_data ''bodies'' (map PInt [1 ..< 26]) True)) []
       \<lparr>kw_options = Some 0, kw_fields = None, kw_others = []\<rparr>
       \<lparr>heap = [[(''first'', 7)]], calls = [], env = ()\<rparr>
       = Some (Inr (take (nat 7) (map PInt [1 ..< 26])), k)
     \<and> length (take (nat 7) (map PInt [1 ..< 26])) = min (nat 7) (length (map PInt [1 ..< 26]))"
    by (rule iterate_to_limit) (simp_all add: requested_def)
  show "collect 10 8 2 (Function (paged_data ''bodies'' (map PInt [1 ..< 26]) True)) []
       \<lparr>kw_options = Some 0, kw_fields = None, kw_others = []\<rparr>
       \<lparr>heap = [[(''first'', 7)]], calls = [], env = ()\<rparr>
       = Some (Inr [PInt 1, PInt 2, PInt 3, PInt 4, PInt 5, PInt 6, PInt 7], 1)"
    by code_simp
qed

text \<open>
  Claim C2, as amended. For the requested limit 0 (no \<open>options\<close>, or \<open>first\<close> absent
  or 0) and a run from the beginning of a data set of \<open>D\<close> items, constructing an
  iterator and iterating it to completion returns all \<open>D\<close> items in order and makes
  exactly \<open>D div maxQueryLimit + 1\<close> page fetches: the run ends at the first page
  shorter than \<open>maxQueryLimit\<close>, which is an empty page when \<open>maxQueryLimit\<close> divides
  \<open>D\<close>.
\<close>

theorem iterate_unlimited:
  fixes w :: "'e world"
  assumes "1 \<le> maxQueryLimit" and "2 \<le> depth"
    and "keyName \<noteq> ''meta''" and "keyName \<noteq> ''__typename''"
    and "requested kwargs w ''first'' = 0" and "requested kwargs w ''offset'' = 0"
  shows "\<exists>n. \<forall>fuel\<ge>n.
           collect maxQueryLimit fuel depth (Function (paged_data keyName data withMeta)) args kwargs w
             = Some (Inr data, length data div nat maxQueryLimit + 1)"
proof -
  from assms have "(0::int) \<le> 0" "requested kwargs w ''offset'' = int 0" by simp_all
  from collect_paged_data [OF assms(1,3,4,5) this assms(2), of data withMeta args]
  show ?thesis
    by auto
qed

theorem iterate_unlimited_witness:
  "(\<exists>n. \<forall>fuel\<ge>n.
     collect 10 fuel 2 (Function (paged_data ''bodies'' (map PInt [1 ..< 26]) True)) []
       \<lparr>kw_options = None, kw_fields = None, kw_others = []\<rparr>
       \<lparr>heap = [], calls = [], env = ()\<rparr>
       = Some (Inr (map PInt [1 ..< 26]), length (map PInt [1 ..< 26]) div nat 10 + 1))
   \<and> collect 10 26 2 (Function (paged_data ''bodies'' (map PInt [1 ..< 26]) True)) []
       \<lparr>kw_options = None, kw_fields = None, kw_others = []\<rparr>
       \<lparr>heap = [], calls = [], env = ()\<rparr>
       = Some (Inr (map PInt [1 ..< 26]), 3)"
proof
  show "\<exists>n. \<forall>fuel\<ge>n.
     collect 10 fuel 2 (Function (paged_data ''bodies'' (map PInt [1 ..< 26]) True)) []
       \<lparr>kw_options = None, kw_fields = None, kw_others = []\<rparr>
       \<lparr>heap = [], calls = [], env = ()\<rparr>
       = Some (Inr (map PInt [1 ..< 26]), length (map PInt [1 ..< 26]) div nat 10 + 1)"
    by (rule iterate_unlimited) (simp_all add: requested_def)
  show "collect 10 26 2 (Function (paged_data ''bodies'' (map PInt [1 ..< 26]) True)) []
       \<lparr>kw_options = None, kw_fields = None, kw_others = []\<rparr>
       \<lparr>heap = [], calls = [], env = ()\<rparr>
       = Some (Inr (map PInt [1 ..< 26]), 3)"
    by code_simp
qed

text \<open>
  Claim C2 as stated fails where the page size divides the size of the data set: four
  items in pages of two take three page fetches (2, 2 and 0 items), not
  \<open>ceil(4 / 2) = 2\<close>.
\<close>

theorem fetches_of_full_pages:
  "collect 2 5 2 (Function (paged_data ''bodies'' [PInt 1, PInt 2, PInt 3, PInt 4] False)) []
     \<lparr>kw_options = None, kw_fields = None, kw_others = []\<rparr>
     \<lparr>heap = [], calls = [], env = ()\<rparr>
   = Some (Inr [PInt 1, PInt 2, PInt 3, PInt 4], 3)
   \<and> (3::nat) \<noteq> nat \<lceil>4 / (2::real)\<rceil>"
  by code_simp

text \<open>
  Claim C9. Let an iterator be constructed with \<open>maxQueryLimit \<ge> 1\<close> and then used by
  any number of calls of \<open>next\<close>. Every further call of \<open>next\<close> with at least two
  stack frames available returns what it returns with exactly two: the recursion of line
  188 is never deeper than that. The call invokes the query function at most once, and
  it ends in \<open>RecursionError\<close> only if the query function itself raised it.
\<close>

theorem next_depth_two:
  assumes "1 \<le> maxQueryLimit"
    and "GraphQueryIterator_init maxQueryLimit queryFunction args kwargs w0 = (Inr self0, w1)"
    and "nexts depths self0 w1 = (self, w)"
    and "2 \<le> depth"
  shows "GraphQueryIterator_next depth self w = GraphQueryIterator_next 2 self w
       \<and> length (calls (snd (snd (GraphQueryIterator_next depth self w)))) \<le> length (calls w) + 1
       \<and> (fst (GraphQueryIterator_next depth self w) = Inl RecursionError \<longrightarrow>
            fst (it_queryFunction self (it_args self) (deref (heap w) (it_kwargs self)) (env w))
              = Inl RecursionError)"
proof -
  from init_first_positive [OF assms(1,2)] have "first_positive self0 w1" .
  from nexts_first_positive [OF this assms(3)] have fp: "first_positive self w" .
  define d where "d = depth - 2"
  from assms(4) have d: "depth = Suc (Suc d)" by (simp add: d_def)
  have two: "2 = Suc (Suc 0)" by simp
  show ?thesis
    unfolding d two by (rule next_two [OF fp])
qed

theorem next_depth_two_witness:
  "GraphQueryIterator_next 7
     \<lparr>it_queryFunction = paged_data ''bodies'' [PInt 1, PInt 2, PInt 3] False, it_args = [],
      it_kwargs = \<lparr>kw_options = Some 0, kw_fields = Some (PDict []), kw_others = []\<rparr>,
      it_items = PList [], it_shouldStop = False, it_totalLimit = 0, it_count = 2,
      it_totalCount = PNone, it_keyName = Some ''bodies''\<rparr>
     \<lparr>heap = [[(''offset'', 2), (''first'', 2)]],
      calls = [([], \<lparr>kw_options = Some [(''offset'', 0), (''first'', 2)],
                     kw_fields = Some (PDict []), kw_others = []\<rparr>)],
      env = ()\<rparr>
   = GraphQueryIterator_next 2
     \<lparr>it_queryFunction = paged_data ''bodies'' [PInt 1, PInt 2, PInt 3] False, it_args = [],
      it_kwargs = \<lparr>kw_options = Some 0, kw_fields = Some (PDict []), kw_others = []\<rparr>,
      it_items = PList [], it_shouldStop = False, it_totalLimit = 0, it_count = 2,
      it_totalCount = PNone, it_keyName = Some ''bodies''\<rparr>
     \<lparr>heap = [[(''offset'', 2), (''first'', 2)]],
      calls = [([], \<lparr>kw_options = Some [(''offset'', 0), (''first'', 2)],
                     kw_fields = Some (PDict []), kw_others = []\<rparr>)],
      env = ()\<rparr>
   \<and> fst (GraphQueryIterator_next 2
     \<lparr>it_queryFunction = paged_data ''bodies'' [PInt 1, PInt 2, PInt 3] False, it_args = [],
      it_kwargs = \<lparr>kw_options = Some 0, kw_fields = Some (PDict []), kw_others = []\<rparr>,
      it_items = PList [], it_shouldStop = False, it_totalLimit = 0, it_count = 2,
      it_totalCount = PNone, it_keyName = Some ''bodies''\<rparr>
     \<lparr>heap = [[(''offset'', 2), (''first'', 2)]],
      calls = [([], \<lparr>kw_options = Some [(''offset'', 0), (''first'', 2)],
                     kw_fields = Some (PDict []), kw_others = []\<rparr>)],
      env = ()\<rparr>) = Inr (PInt 3)"
proof -
  let ?Q = "paged_data ''bodies'' [PInt 1, PInt 2, PInt 3] False :: unit call"
  let ?kw = "\<lparr>kw_options = Some 0, kw_fields = Some (PDict []), kw_others = []\<rparr> :: addr kwargs"
  let ?start = "\<lparr>it_queryFunction = ?Q, it_args = [], it_kwargs = ?kw,
      it_items = PList [], it_shouldStop = False, it_totalLimit = 0, it_count = 0,
      it_totalCount = PNone, it_keyName = None\<rparr>"
  let ?wstart = "\<lparr>heap = [[(''offset'', 0), (''first'', 2)]], calls = [], env = ()\<rparr>"
  let ?state = "\<lparr>it_queryFunction = ?Q, it_args = [], it_kwargs = ?kw,
      it_items = PList [], it_shouldStop = False, it_totalLimit = 0, it_count = 2,
      it_totalCount = PNone, it_keyName = Some ''bodies''\<rparr>"
  let ?world = "\<lparr>heap = [[(''offset'', 2), (''first'', 2)]],
      calls = [([], \<lparr>kw_options = Some [(''offset'', 0), (''first'', 2)],
                     kw_fields = Some (PDict []), kw_others = []\<rparr>)],
      env = ()\<rparr>"
  have init: "GraphQueryIterator_init 2 (Function ?Q) []
      \<lparr>kw_options = None, kw_fields = None, kw_others = []\<rparr> \<lparr>heap = [], calls = [], env = ()\<rparr>
    = (Inr ?start, ?wstart)"
    by (simp add: run_simps)
  have run: "nexts [2, 2] ?start ?wstart = (?state, ?world)"
    by (simp add: run_simps eval_nat_numeral)
  have "(1::int) \<le> 2" "(2::nat) \<le> 7" by simp_all
  from next_depth_two [OF this(1) init run this(2)]
  have "GraphQueryIterator_next 7 ?state ?world = GraphQueryIterator_next 2 ?state ?world" by blast
  moreover have "fst (GraphQueryIterator_next 2 ?state ?world) = Inr (PInt 3)"
    by (simp add: run_simps eval_nat_numeral)
  ultimately show ?thesis by blast
qed

text \<open>
  Claim C8. Constructing an iterator on the adapted function \<open>UseGraphQueryResult Q\<close>,
  looked up on an instance \<open>obj\<close>, is constructing it on the raw \<open>Q\<close> with \<open>obj\<close> as
  the first positional argument: the two constructions give the same iterator and the
  same world. The iterator holds \<open>Q\<close> itself, and its page fetch is one invocation of
  \<open>Q\<close> with \<open>obj\<close> first, changing the environment as \<open>Q\<close> does: the body of the
  wrapper is not run.
\<close>

theorem unwrap_adapted:
  "GraphQueryIterator_init maxQueryLimit (bound_method obj (UseGraphQueryResult Q)) args kwargs w
     = GraphQueryIterator_init maxQueryLimit (Function Q) (obj # args) kwargs w
   \<and> (\<exists>it w1.
         GraphQueryIterator_init maxQueryLimit (bound_method obj (UseGraphQueryResult Q)) args kwargs w
           = (Inr it, w1)
       \<and> it_queryFunction it = Q \<and> it_args it = obj # args
       \<and> calls (snd (snd (GraphQueryIterator_fetch it w1)))
           = calls w @ [(obj # args, deref (heap w1) (it_kwargs it))]
       \<and> env (snd (snd (GraphQueryIterator_fetch it w1)))
           = snd (Q (obj # args) (deref (heap w1) (it_kwargs it)) (env w)))"
proof -
  have eq: "GraphQueryIterator_init maxQueryLimit (bound_method obj (UseGraphQueryResult Q)) args kwargs w
     = GraphQueryIterator_init maxQueryLimit (Function Q) (obj # args) kwargs w"
    by (simp add: UseGraphQueryResult_def init_BoundWrapper)
  obtain it w1 where init: "GraphQueryIterator_init maxQueryLimit (Function Q) (obj # args) kwargs w = (Inr it, w1)"
    and it: "it_queryFunction it = Q" "it_args it = obj # args" and w1: "calls w1 = calls w" "env w1 = env w"
    by (simp add: init_Function)
  from fetch_invocation [where self = it and w = w1]
  have "calls (snd (snd (GraphQueryIterator_fetch it w1)))
           = calls w @ [(obj # args, deref (heap w1) (it_kwargs it))]
       \<and> env (snd (snd (GraphQueryIterator_fetch it w1)))
           = snd (Q (obj # args) (deref (heap w1) (it_kwargs it)) (env w))"
    by (simp add: it w1 split: prod.splits)
  with eq init it show ?thesis by auto
qed

text \<open>
  Claim C5. When \<open>FetchAll\<close> has returned, calling it again, with whatever fuel and
  stack, returns at once with the same container (the same list) and the same world:
  no further page fetch is logged and nothing is allocated.
\<close>

theorem FetchAll_idempotent:
  assumes "FetchAll maxQueryLimit fuel depth self w = Some (None, self', w')"
  shows "FetchAll maxQueryLimit fuel' depth' self' w' = Some (None, self', w')"
proof -
  have "qr_fetchedAll self'"
    using assms
    by (cases "qr_fetchedAll self")
       (auto simp add: FetchAll_def split: prod.splits sum.splits option.splits)
  then show ?thesis
    by (simp add: FetchAll_def)
qed

theorem FetchAll_idempotent_witness:
  "FetchAll 2 5 2
     \<lparr>qr_queryFunction = paged_data ''bodies'' [PInt 1, PInt 2, PInt 3] True, qr_args = [],
      qr_kwargs = \<lparr>kw_options = Some 0, kw_fields = None, kw_others = []\<rparr>,
      qr_limit = 0, qr_offset = 0, qr_fetchedAll = False, qr_items = PList [PInt 1, PInt 2],
      qr_currentOffset = Some 0, qr_totalCount = PInt 3, qr_keyName = Some ''bodies'',
      qr_list = []\<rparr>
     \<lparr>heap = [[(''offset'', 0), (''first'', 0)], [(''offset'', 0), (''first'', 2)]],
      calls = [([], \<lparr>kw_options = Some [(''offset'', 0), (''first'', 2)],
                     kw_fields = None, kw_others = []\<rparr>)],
      env = ()\<rparr>
   = Some (None,
     \<lparr>qr_queryFunction = paged_data ''bodies'' [PInt 1, PInt 2, PInt 3] True, qr_args = [],
      qr_kwargs = \<lparr>kw_options = Some 0, kw_fields = None, kw_others = []\<rparr>,
      qr_limit = 0, qr_offset = 0, qr_fetchedAll = True, qr_items = PList [PInt 1, PInt 2],
      qr_currentOffset = Some 0, qr_totalCount = PInt 3, qr_keyName = Some ''bodies'',
      qr_list = [PInt 1, PInt 2, PInt 3]\<rparr>,
     \<lparr>heap = [[(''offset'', 0), (''first'', 0)], [(''offset'', 0), (''first'', 2)],
              [(''offset'', 3), (''first'', 2)]],
      calls = [([], \<lparr>kw_options = Some [(''offset'', 0), (''first'', 2)],
                     kw_fields = None, kw_others = []\<rparr>),
               ([], \<lparr>kw_options = Some [(''offset'', 0), (''first'', 2)],
                     kw_fields = Some (PDict []), kw_others = []\<rparr>),
               ([], \<lparr>kw_options = Some [(''offset'', 2), (''first'', 2)],
                     kw_fields = Some (PDict []), kw_others = []\<rparr>)],
      env = ()\<rparr>)
   \<and> FetchAll 2 5 2
     \<lparr>qr_queryFunction = paged_data ''bodies'' [PInt 1, PInt 2, PInt 3] True, qr_args = [],
      qr_kwargs = \<lparr>kw_options = Some 0, kw_fields = None, kw_others = []\<rparr>,
      qr_limit = 0, qr_offset = 0, qr_fetchedAll = True, qr_items = PList [PInt 1, PInt 2],
      qr_currentOffset = Some 0, qr_totalCount = PInt 3, qr_keyName = Some ''bodies'',
      qr_list = [PInt 1, PInt 2, PInt 3]\<rparr>
     \<lparr>heap = [[(''offset'', 0), (''first'', 0)], [(''offset'', 0), (''first'', 2)],
              [(''offset'', 3), (''first'', 2)]],
      calls = [([], \<lparr>kw_options = Some [(''offset'', 0), (''first'', 2)],
                     kw_fields = None, kw_others = []\<rparr>),
               ([], \<lparr>kw_options = Some [(''offset'', 0), (''first'', 2)],
                     kw_fields = Some (PDict []), kw_others = []\<rparr>),
               ([], \<lparr>kw_options = Some [(''offset'', 2), (''first'', 2)],
                     kw_fields = Some (PDict []), kw_others = []\<rparr>)],
      env = ()\<rparr>
   = Some (None,
     \<lparr>qr_queryFunction = paged_data ''bodies'' [PInt 1, PInt 2, PInt 3] True, qr_args = [],
      qr_kwargs = \<lparr>kw_options = Some 0, kw_fields = None, kw_others = []\<rparr>,
      qr_limit = 0, qr_offset = 0, qr_fetchedAll = True, qr_items = PList [PInt 1, PInt 2],
      qr_currentOffset = Some 0, qr_totalCount = PInt 3, qr_keyName = Some ''bodies'',
      qr_list = [PInt 1, PInt 2, PInt 3]\<rparr>,
     \<lparr>heap = [[(''offset'', 0), (''first'', 0)], [(''offset'', 0), (''first'', 2)],
              [(''offset'', 3), (''first'', 2)]],
      calls = [([], \<lparr>kw_options = Some [(''offset'', 0), (''first'', 2)],
                     kw_fields = None, kw_others = []\<rparr>),
               ([], \<lparr>kw_options = Some [(''offset'', 0), (''first'', 2)],
                     kw_fields = Some (PDict []), kw_others = []\<rparr>),
               ([], \<lparr>kw_options = Some [(''offset'', 2), (''first'', 2)],
                     kw_fields = Some (PDict []), kw_others = []\<rparr>)],
      env = ()\<rparr>)"
proof (rule conjI)
  show first: "FetchAll 2 5 2
     \<lparr>qr_queryFunction = paged_data ''bodies'' [PInt 1, PInt 2, PInt 3] True, qr_args = [],
      qr_kwargs = \<lparr>kw_options = Some 0, kw_fields = None, kw_others = []\<rparr>,
      qr_limit = 0, qr_offset = 0, qr_fetchedAll = False, qr_items = PList [PInt 1, PInt 2],
      qr_currentOffset = Some 0, qr_totalCount = PInt 3, qr_keyName = Some ''bodies'',
      qr_list = []\<rparr>
     \<lparr>heap = [[(''offset'', 0), (''first'', 0)], [(''offset'', 0), (''first'', 2)]],
      calls = [([], \<lparr>kw_options = Some [(''offset'', 0), (''first'', 2)],
                     kw_fields = None, kw_others = []\<rparr>)],
      env = ()\<rparr>
   = Some (None,
     \<lparr>qr_queryFunction = paged_data ''bodies'' [PInt 1, PInt 2, PInt 3] True, qr_args = [],
      qr_kwargs = \<lparr>kw_options = Some 0, kw_fields = None, kw_others = []\<rparr>,
      qr_limit = 0, qr_offset = 0, qr_fetchedAll = True, qr_items = PList [PInt 1, PInt 2],
      qr_currentOffset = Some 0, qr_totalCount = PInt 3, qr_keyName = Some ''bodies'',
      qr_list = [PInt 1, PInt 2, PInt 3]\<rparr>,
     \<lparr>heap = [[(''offset'', 0), (''first'', 0)], [(''offset'', 0), (''first'', 2)],
              [(''offset'', 3), (''first'', 2)]],
      calls = [([], \<lparr>kw_options = Some [(''offset'', 0), (''first'', 2)],
                     kw_fields = None, kw_others = []\<rparr>),
               ([], \<lparr>kw_options = Some [(''offset'', 0), (''first'', 2)],
                     kw_fields = Some (PDict []), kw_others = []\<rparr>),
               ([], \<lparr>kw_options = Some [(''offset'', 2), (''first'', 2)],
                     kw_fields = Some (PDict []), kw_others = []\<rparr>)],
      env = ()\<rparr>)"
    by (simp add: FetchAll_def run_simps eval_nat_numeral)
  from FetchAll_idempotent [OF first, of 5 2] show "FetchAll 2 5 2
     \<lparr>qr_queryFunction = paged_data ''bodies'' [PInt 1, PInt 2, PInt 3] True, qr_args = [],
      qr_kwargs = \<lparr>kw_options = Some 0, kw_fields = None, kw_others = []\<rparr>,
      qr_limit = 0, qr_offset = 0, qr_fetchedAll = True, qr_items = PList [PInt 1, PInt 2],
      qr_currentOffset = Some 0, qr_totalCount = PInt 3, qr_keyName = Some ''bodies'',
      qr_list = [PInt 1, PInt 2, PInt 3]\<rparr>
     \<lparr>heap = [[(''offset'', 0), (''first'', 0)], [(''offset'', 0), (''first'', 2)],
              [(''offset'', 3), (''first'', 2)]],
      calls = [([], \<lparr>kw_options = Some [(''offset'', 0), (''first'', 2)],
                     kw_fields = None, kw_others = []\<rparr>),
               ([], \<lparr>kw_options = Some [(''offset'', 0), (''first'', 2)],
                     kw_fields = Some (PDict []), kw_others = []\<rparr>),
               ([], \<lparr>kw_options = Some [(''offset'', 2), (''first'', 2)],
                     kw_fields = Some (PDict []), kw_others = []\<rparr>)],
      env = ()\<rparr>
   = Some (None,
     \<lparr>qr_queryFunction = paged_data ''bodies'' [PInt 1, PInt 2, PInt 3] True, qr_args = [],
      qr_kwargs = \<lparr>kw_options = Some 0, kw_fields = None, kw_others = []\<rparr>,
      qr_limit = 0, qr_offset = 0, qr_fetchedAll = True, qr_items = PList [PInt 1, PInt 2],
      qr_currentOffset = Some 0, qr_totalCount = PInt 3, qr_keyName = Some ''bodies'',
      qr_list = [PInt 1, PInt 2, PInt 3]\<rparr>,
     \<lparr>heap = [[(''offset'', 0), (''first'', 0)], [(''offset'', 0), (''first'', 2)],
              [(''offset'', 3), (''first'', 2)]],
      calls = [([], \<lparr>kw_options = Some [(''offset'', 0), (''first'', 2)],
                     kw_fields = None, kw_others = []\<rparr>),
               ([], \<lparr>kw_options = Some [(''offset'', 0), (''first'', 2)],
                     kw_fields = Some (PDict []), kw_others = []\<rparr>),
               ([], \<lparr>kw_options = Some [(''offset'', 2), (''first'', 2)],
                     kw_fields = Some (PDict []), kw_others = []\<rparr>)],
      env = ()\<rparr>)" .
qed

text \<open>
  Claim C4 holds when the page size the iterator sends exceeds 1 (\<open>scalar_query_once\<close>
  above, for \<open>maxQueryLimit \<ge> 2\<close>). With \<open>maxQueryLimit = 1\<close> and no limit requested,
  the one-item page of the \<open>'__typename'\<close> response is not shorter than the page size,
  so line 182 does not set \<open>_shouldStop\<close>: the first \<open>next\<close> yields \<open>'Body'\<close> and
  leaves the iterator not exhausted, and the second \<open>next\<close> fetches and yields
  \<open>'Body'\<close> again.
\<close>

theorem scalar_query_repeats:
  "GraphQueryIterator_init 1 (Function (scalar_query (PStr ''Body''))) []
      \<lparr>kw_options = None, kw_fields = None, kw_others = []\<rparr>
      \<lparr>heap = [], calls = [], env = ()\<rparr>
   = (Inr \<lparr>it_queryFunction = scalar_query (PStr ''Body''), it_args = [],
           it_kwargs = \<lparr>kw_options = Some 0, kw_fields = Some (PDict []), kw_others = []\<rparr>,
           it_items = PList [], it_shouldStop = False, it_totalLimit = 0, it_count = 0,
           it_totalCount = PNone, it_keyName = None\<rparr>,
      \<lparr>heap = [[(''offset'', 0), (''first'', 1)]], calls = [], env = ()\<rparr>)
   \<and> GraphQueryIterator_next 2
        \<lparr>it_queryFunction = scalar_query (PStr ''Body''), it_args = [],
         it_kwargs = \<lparr>kw_options = Some 0, kw_fields = Some (PDict []), kw_others = []\<rparr>,
         it_items = PList [], it_shouldStop = False, it_totalLimit = 0, it_count = 0,
         it_totalCount = PNone, it_keyName = None\<rparr>
        \<lparr>heap = [[(''offset'', 0), (''first'', 1)]], calls = [], env = ()\<rparr>
   = (Inr (PStr ''Body''),
      \<lparr>it_queryFunction = scalar_query (PStr ''Body''), it_args = [],
       it_kwargs = \<lparr>kw_options = Some 0, kw_fields = Some (PDict []), kw_others = []\<rparr>,
       it_items = PList [], it_shouldStop = False, it_totalLimit = 0, it_count = 1,
       it_totalCount = PNone, it_keyName = Some ''__typename''\<rparr>,
      \<lparr>heap = [[(''offset'', 1), (''first'', 1)]],
       calls = [([], \<lparr>kw_options = Some [(''offset'', 0), (''first'', 1)],
                      kw_fields = Some (PDict []), kw_others = []\<rparr>)],
       env = ()\<rparr>)
   \<and> fst (GraphQueryIterator_next 2
        \<lparr>it_queryFunction = scalar_query (PStr ''Body''), it_args = [],
         it_kwargs = \<lparr>kw_options = Some 0, kw_fields = Some (PDict []), kw_others = []\<rparr>,
         it_items = PList [], it_shouldStop = False, it_totalLimit = 0, it_count = 1,
         it_totalCount = PNone, it_keyName = Some ''__typename''\<rparr>
        \<lparr>heap = [[(''offset'', 1), (''first'', 1)]],
         calls = [([], \<lparr>kw_options = Some [(''offset'', 0), (''first'', 1)],
                        kw_fields = Some (PDict []), kw_others = []\<rparr>)],
         env = ()\<rparr>)
   = Inr (PStr ''Body'')"
  by (simp add: run_simps scalar_query_def eval_nat_numeral)

text \<open>
  Claim C3, as amended. Let \<open>fields\<close> be absent, or a dictionary whose \<open>meta\<close> entry is
  absent or a dictionary. Constructing a container then makes exactly one page fetch.
  On a paged data set the container holds exactly the items of that first page, in
  its \<open>_items\<close> buffer under their key name, and its length and indexing (of the base
  class, as modelled above) give exactly those items; the list the container is,
  however, is still empty and the container is not marked as fetched. For a
  \<open>'__typename'\<close> response the list itself is filled, with that one value, and the
  container is marked as fetched. With any other \<open>fields\<close> line 221 or 222 raises
  \<open>AttributeError\<close>: no container is constructed and no page is fetched.
\<close>

theorem constructed_first_page:
  fixes w :: "'e world"
  assumes key: "keyName \<noteq> ''meta''" "keyName \<noteq> ''__typename''"
    and L: "requested kwargs w ''first'' = L" and off: "requested kwargs w ''offset'' = int off"
    and page: "page = take (nat (clamp_first maxQueryLimit L)) (drop off data)"
  shows "((kw_fields kwargs = None \<or> (\<exists>d. kw_fields kwargs = Some (PDict d)
              \<and> (map_of d ''meta'' = None \<or> (\<exists>m. map_of d ''meta'' = Some (PDict m))))) \<longrightarrow>
          (\<exists>r w'. GraphQueryResult_init maxQueryLimit (paged_data keyName data withMeta) args kwargs w
                   = (Inr r, w')
            \<and> length (calls w') = length (calls w) + 1
            \<and> qr_items r = PList page \<and> qr_keyName r = Some keyName
            \<and> QueryResult_len r = int (length page)
            \<and> (\<forall>i < length page. QueryResult_getitem r (int i) = Inr (page ! i))
            \<and> QueryResult_getitem r (int (length page)) = Inl IndexError
            \<and> qr_list r = [] \<and> \<not> qr_fetchedAll r)
        \<and> (\<exists>r w'. GraphQueryResult_init maxQueryLimit (scalar_query v) args kwargs w = (Inr r, w')
            \<and> length (calls w') = length (calls w) + 1
            \<and> qr_keyName r = Some ''__typename''
            \<and> QueryResult_len r = 1 \<and> QueryResult_getitem r 0 = Inr v
            \<and> qr_list r = [v] \<and> qr_fetchedAll r))
       \<and> (\<not> (kw_fields kwargs = None \<or> (\<exists>d. kw_fields kwargs = Some (PDict d)
              \<and> (map_of d ''meta'' = None \<or> (\<exists>m. map_of d ''meta'' = Some (PDict m))))) \<longrightarrow>
          (\<forall>Q. \<exists>w'. GraphQueryResult_init maxQueryLimit Q args kwargs w = (Inl AttributeError, w')
            \<and> calls w' = calls w))"
proof (intro conjI impI)
  assume "kw_fields kwargs = None \<or> (\<exists>d. kw_fields kwargs = Some (PDict d)
              \<and> (map_of d ''meta'' = None \<or> (\<exists>m. map_of d ''meta'' = Some (PDict m))))"
  then obtain f where f: "request_totalCount (kw_fields kwargs) = Inr f"
    using request_totalCount_Inr_iff [of "kw_fields kwargs"] by blast
  from result_init_paged [OF key L off f, of maxQueryLimit data withMeta args]
  obtain r w' where r: "GraphQueryResult_init maxQueryLimit (paged_data keyName data withMeta) args kwargs w
                   = (Inr r, w')" "length (calls w') = length (calls w) + 1"
      "qr_items r = PList page" "qr_keyName r = Some keyName" "qr_list r = []" "\<not> qr_fetchedAll r"
    unfolding page by blast
  have h: "QueryResult_held r = page" using r(6,3) by (rule held_buffer)
  have "QueryResult_len r = int (length page)" by (simp add: QueryResult_len_def h)
  moreover have "\<forall>i < length page. QueryResult_getitem r (int i) = Inr (page ! i)"
    using getitem_held(1) [of _ r] by (simp add: h)
  moreover have "QueryResult_getitem r (int (length page)) = Inl IndexError"
    using getitem_held(2) [of r] by (simp add: h)
  ultimately show "\<exists>r w'. GraphQueryResult_init maxQueryLimit (paged_data keyName data withMeta) args kwargs w
                   = (Inr r, w')
            \<and> length (calls w') = length (calls w) + 1
            \<and> qr_items r = PList page \<and> qr_keyName r = Some keyName
            \<and> QueryResult_len r = int (length page)
            \<and> (\<forall>i < length page. QueryResult_getitem r (int i) = Inr (page ! i))
            \<and> QueryResult_getitem r (int (length page)) = Inl IndexError
            \<and> qr_list r = [] \<and> \<not> qr_fetchedAll r"
    using r by blast
next
  assume "kw_fields kwargs = None \<or> (\<exists>d. kw_fields kwargs = Some (PDict d)
              \<and> (map_of d ''meta'' = None \<or> (\<exists>m. map_of d ''meta'' = Some (PDict m))))"
  then obtain f where f: "request_totalCount (kw_fields kwargs) = Inr f"
    using request_totalCount_Inr_iff [of "kw_fields kwargs"] by blast
  from result_init_scalar [OF L off f, of maxQueryLimit v args]
  obtain r w' where r: "GraphQueryResult_init maxQueryLimit (scalar_query v) args kwargs w = (Inr r, w')"
      "length (calls w') = length (calls w) + 1"
      "qr_keyName r = Some ''__typename''" "qr_list r = [v]" "qr_fetchedAll r"
    by blast
  have h: "QueryResult_held r = [v]" using held_list [OF r(5)] r(4) by simp
  have "QueryResult_len r = 1" by (simp add: QueryResult_len_def h)
  moreover have "QueryResult_getitem r 0 = Inr v"
    by (simp add: QueryResult_getitem_def h)
  ultimately show "\<exists>r w'. GraphQueryResult_init maxQueryLimit (scalar_query v) args kwargs w = (Inr r, w')
            \<and> length (calls w') = length (calls w) + 1
            \<and> qr_keyName r = Some ''__typename''
            \<and> QueryResult_len r = 1 \<and> QueryResult_getitem r 0 = Inr v
            \<and> qr_list r = [v] \<and> qr_fetchedAll r"
    using r by blast
next
  assume n: "\<not> (kw_fields kwargs = None \<or> (\<exists>d. kw_fields kwargs = Some (PDict d)
              \<and> (map_of d ''meta'' = None \<or> (\<exists>m. map_of d ''meta'' = Some (PDict m)))))"
  have e: "request_totalCount (kw_fields kwargs) = Inl AttributeError"
    using n request_totalCount_Inr_iff [of "kw_fields kwargs"]
      request_totalCount_cases [of "kw_fields kwargs"] by blast
  show "\<forall>Q. \<exists>w'. GraphQueryResult_init maxQueryLimit Q args kwargs w = (Inl AttributeError, w')
            \<and> calls w' = calls w"
    by (simp add: result_init_raises [OF e])
qed

theorem constructed_first_page_witness:
  "(\<exists>r w'. GraphQueryResult_init 2 (paged_data ''bodies'' [PInt 1, PInt 2, PInt 3] True) []
                \<lparr>kw_options = Some 0, kw_fields = Some (PDict [(''bodies'', PDict [(''id'', PNone)])]),
                 kw_others = []\<rparr>
                \<lparr>heap = [[(''first'', 0)]], calls = [], env = ()\<rparr> = (Inr r, w')
            \<and> length (calls w') = 1
            \<and> qr_items r = PList [PInt 1, PInt 2] \<and> qr_keyName r = Some ''bodies''
            \<and> QueryResult_len r = 2
            \<and> QueryResult_getitem r 0 = Inr (PInt 1) \<and> QueryResult_getitem r 1 = Inr (PInt 2)
            \<and> QueryResult_getitem r 2 = Inl IndexError
            \<and> qr_list r = [] \<and> \<not> qr_fetchedAll r)
   \<and> (\<exists>r w'. GraphQueryResult_init 2 (scalar_query (PStr ''Body'')) []
                \<lparr>kw_options = Some 0, kw_fields = Some (PDict [(''bodies'', PDict [(''id'', PNone)])]),
                 kw_others = []\<rparr>
                \<lparr>heap = [[(''first'', 0)]], calls = [], env = ()\<rparr> = (Inr r, w')
            \<and> length (calls w') = 1
            \<and> qr_keyName r = Some ''__typename''
            \<and> QueryResult_len r = 1 \<and> QueryResult_getitem r 0 = Inr (PStr ''Body'')
            \<and> qr_list r = [PStr ''Body''] \<and> qr_fetchedAll r)
   \<and> (\<exists>w'. GraphQueryResult_init 2 (paged_data ''bodies'' [PInt 1, PInt 2, PInt 3] True) []
                \<lparr>kw_options = Some 0, kw_fields = Some (PDict [(''meta'', PNone)]), kw_others = []\<rparr>
                \<lparr>heap = [[(''first'', 0)]], calls = [], env = ()\<rparr> = (Inl AttributeError, w')
            \<and> calls w' = [])"
proof -
  let ?Q = "paged_data ''bodies'' [PInt 1, PInt 2, PInt 3] True :: unit call"
  let ?kwa = "\<lparr>kw_options = Some (0::addr),
               kw_fields = Some (PDict [(''bodies'', PDict [(''id'', PNone)])]), kw_others = []\<rparr>"
  let ?kwb = "\<lparr>kw_options = Some (0::addr), kw_fields = Some (PDict [(''meta'', PNone)]),
               kw_others = []\<rparr>"
  let ?wd = "\<lparr>heap = [[(''first'', 0)]], calls = [], env = ()\<rparr> :: unit world"
  have k: "''bodies'' \<noteq> ''meta''" "''bodies'' \<noteq> ''__typename''" by simp_all
  have La: "requested ?kwa ?wd ''first'' = 0" and offa: "requested ?kwa ?wd ''offset'' = int 0"
    and Lb: "requested ?kwb ?wd ''first'' = 0" and offb: "requested ?kwb ?wd ''offset'' = int 0"
    by (simp_all add: requested_def setdefault_def)
  have pg: "[PInt 1, PInt 2] = take (nat (clamp_first 2 0)) (drop 0 [PInt 1, PInt 2, PInt 3])"
    by (simp add: clamp_first_def)
  have oka: "kw_fields ?kwa = None \<or> (\<exists>d. kw_fields ?kwa = Some (PDict d)
              \<and> (map_of d ''meta'' = None \<or> (\<exists>m. map_of d ''meta'' = Some (PDict m))))"
    by simp
  have okb: "\<not> (kw_fields ?kwb = None \<or> (\<exists>d. kw_fields ?kwb = Some (PDict d)
              \<and> (map_of d ''meta'' = None \<or> (\<exists>m. map_of d ''meta'' = Some (PDict m)))))"
    by simp
  note ta = constructed_first_page [where withMeta = True and args = "[]" and v = "PStr ''Body''",
      OF k La offa pg]
  note tb = constructed_first_page [where withMeta = True and args = "[]" and v = "PStr ''Body''",
      OF k Lb offb pg]
  from ta oka obtain r w' where r:
      "GraphQueryResult_init 2 ?Q [] ?kwa ?wd = (Inr r, w')"
      "length (calls w') = length (calls ?wd) + 1"
      "qr_items r = PList [PInt 1, PInt 2]" "qr_keyName r = Some ''bodies''"
      "QueryResult_len r = int (length [PInt 1, PInt 2])"
      "\<forall>i < length [PInt 1, PInt 2]. QueryResult_getitem r (int i) = Inr ([PInt 1, PInt 2] ! i)"
      "QueryResult_getitem r (int (length [PInt 1, PInt 2])) = Inl IndexError"
      "qr_list r = []" "\<not> qr_fetchedAll r"
    by blast
  have g: "QueryResult_getitem r 0 = Inr (PInt 1)" "QueryResult_getitem r 1 = Inr (PInt 2)"
    using r(6) [rule_format, of 0] r(6) [rule_format, of 1] by simp_all
  have A: "\<exists>r w'. GraphQueryResult_init 2 ?Q [] ?kwa ?wd = (Inr r, w')
            \<and> length (calls w') = 1
            \<and> qr_items r = PList [PInt 1, PInt 2] \<and> qr_keyName r = Some ''bodies''
            \<and> QueryResult_len r = 2
            \<and> QueryResult_getitem r 0 = Inr (PInt 1) \<and> QueryResult_getitem r 1 = Inr (PInt 2)
            \<and> QueryResult_getitem r 2 = Inl IndexError
            \<and> qr_list r = [] \<and> \<not> qr_fetchedAll r"
    using r(1,2,3,4,5,7,8,9) g by (intro exI [of _ r] exI [of _ w']) simp
  from ta oka have B: "\<exists>r w'. GraphQueryResult_init 2 (scalar_query (PStr ''Body'')) [] ?kwa ?wd = (Inr r, w')
            \<and> length (calls w') = 1
            \<and> qr_keyName r = Some ''__typename''
            \<and> QueryResult_len r = 1 \<and> QueryResult_getitem r 0 = Inr (PStr ''Body'')
            \<and> qr_list r = [PStr ''Body''] \<and> qr_fetchedAll r"
    by simp
  from tb okb have C: "\<exists>w'. GraphQueryResult_init 2 ?Q [] ?kwb ?wd = (Inl AttributeError, w')
            \<and> calls w' = []"
    by simp
  from A B C show ?thesis by blast
qed

text \<open>
  Claim C3 as stated fails. With three items served in pages of two, the container is
  constructed with one page fetch and the first page \<open>[1, 2]\<close> is in the \<open>_items\<close>
  buffer, but the list the container is holds no item, and the items that a loop over
  the container yields are all three, fetched again from the start.
\<close>

theorem first_page_not_in_list:
  "construct 2 (paged_data ''bodies'' [PInt 1, PInt 2, PInt 3] False) []
     \<lparr>kw_options = None, kw_fields = None, kw_others = []\<rparr>
     \<lparr>heap = [], calls = [], env = ()\<rparr>
   = Inr ([], PList [PInt 1, PInt 2], False, 1)
   \<and> list_comprehension 2 4 2
       (projr (fst (GraphQueryResult_init 2 (paged_data ''bodies'' [PInt 1, PInt 2, PInt 3] False) []
          \<lparr>kw_options = None, kw_fields = None, kw_others = []\<rparr>
          \<lparr>heap = [], calls = [], env = ()\<rparr>)))
       (snd (GraphQueryResult_init 2 (paged_data ''bodies'' [PInt 1, PInt 2, PInt 3] False) []
          \<lparr>kw_options = None, kw_fields = None, kw_others = []\<rparr>
          \<lparr>heap = [], calls = [], env = ()\<rparr>))
   = Some (Inr [PInt 1, PInt 2, PInt 3])"
  by code_simp

text \<open>
  Claim C10. Without a \<open>fields\<close> keyword the one page fetch of the constructor carries
  no \<open>fields\<close> at all, so no \<open>meta\<close> is requested, and the total count of the
  container is \<open>None\<close> if the response has no \<open>meta\<close> and the server's count if it has
  one anyway. With a \<open>fields\<close> dictionary (whose \<open>meta\<close> entry, if any, is a
  dictionary) the fetch carries the caller's fields with \<open>meta.totalCount\<close> added and
  every other entry unchanged.
\<close>

theorem totalCount_requested_with_fields:
  "(kw_fields kwargs = None \<longrightarrow>
      (\<exists>kv. calls (snd (GraphQueryResult_init maxQueryLimit Q args kwargs w)) = calls w @ [(args, kv)]
         \<and> kw_fields kv = None
         \<and> (\<forall>r resp. fst (GraphQueryResult_init maxQueryLimit Q args kwargs w) = Inr r \<longrightarrow>
               fst (Q args kv (env w)) = Inr resp \<longrightarrow>
               (map_of resp ''meta'' = None \<longrightarrow> qr_totalCount r = PNone)
             \<and> (\<forall>m c. map_of resp ''meta'' = Some (PDict m) \<longrightarrow> map_of m ''totalCount'' = Some c \<longrightarrow>
                    qr_totalCount r = c))))
   \<and> (\<forall>d. kw_fields kwargs = Some (PDict d) \<longrightarrow>
          (map_of d ''meta'' = None \<or> (\<exists>m. map_of d ''meta'' = Some (PDict m))) \<longrightarrow>
      (\<exists>kv d' m'. calls (snd (GraphQueryResult_init maxQueryLimit Q args kwargs w)) = calls w @ [(args, kv)]
         \<and> kw_fields kv = Some (PDict d')
         \<and> map_of d' ''meta'' = Some (PDict m') \<and> map_of m' ''totalCount'' \<noteq> None
         \<and> (\<forall>k. k \<noteq> ''meta'' \<longrightarrow> map_of d' k = map_of d k)))"
proof (intro conjI impI allI)
  let ?w2 = "w\<lparr>heap := heap w @ [own_options kwargs w]\<rparr>"
  let ?opts = "AList.update ''first'' (clamp_first maxQueryLimit (requested kwargs w ''first''))
                 (AList.update ''offset'' (requested kwargs w ''offset'') (own_options kwargs w))"
  let ?kv = "\<lambda>f. \<lparr>kw_options = Some ?opts, kw_fields = f, kw_others = kw_others kwargs\<rparr>"
  let ?r0 = "\<lambda>f. \<lparr>qr_queryFunction = Q, qr_args = args,
              qr_kwargs = kwargs\<lparr>kw_options := Some (length (heap w)), kw_fields := f\<rparr>,
              qr_limit = requested kwargs w ''first'', qr_offset = requested kwargs w ''offset'',
              qr_fetchedAll = False, qr_items = PNone, qr_currentOffset = None,
              qr_totalCount = PNone, qr_keyName = None, qr_list = []\<rparr>"
  have frame: "(case APICall maxQueryLimit (?r0 f) (requested kwargs w ''offset'') ?w2 of
      (e, self', w') \<Rightarrow> calls w' = calls w @ [(args, ?kv f)])" for f
    using APICall_frame [where self = "?r0 f" and a = "length (heap w)" and w = ?w2
        and L = "requested kwargs w ''first''" and maxQueryLimit = maxQueryLimit
        and offset = "requested kwargs w ''offset''"]
    by (simp add: own_options_requested split: prod.splits)
  have tc: "(case APICall maxQueryLimit (?r0 f) (requested kwargs w ''offset'') ?w2 of
      (e, self', w') \<Rightarrow>
        (\<forall>resp. fst (Q args (?kv f) (env w)) = Inr resp \<longrightarrow> e = None \<longrightarrow>
           (map_of resp ''meta'' = None \<longrightarrow> qr_totalCount self' = PNone)
         \<and> (\<forall>m c. map_of resp ''meta'' = Some (PDict m) \<longrightarrow> map_of m ''totalCount'' = Some c \<longrightarrow>
                qr_totalCount self' = c)))" for f
    using APICall_totalCount [where self = "?r0 f" and a = "length (heap w)" and w = ?w2
        and L = "requested kwargs w ''first''" and maxQueryLimit = maxQueryLimit
        and offset = "requested kwargs w ''offset''"]
    by (simp add: own_options_requested split: prod.splits)
  {
    assume none: "kw_fields kwargs = None"
    have rt: "request_totalCount (kw_fields kwargs) = Inr None"
      by (simp add: none request_totalCount_def)
    have "calls (snd (GraphQueryResult_init maxQueryLimit Q args kwargs w)) = calls w @ [(args, ?kv None)]"
      using frame [of None]
      by (simp add: result_init_eq rt split: prod.splits option.splits)
    moreover have "\<forall>r resp. fst (GraphQueryResult_init maxQueryLimit Q args kwargs w) = Inr r \<longrightarrow>
               fst (Q args (?kv None) (env w)) = Inr resp \<longrightarrow>
               (map_of resp ''meta'' = None \<longrightarrow> qr_totalCount r = PNone)
             \<and> (\<forall>m c. map_of resp ''meta'' = Some (PDict m) \<longrightarrow> map_of m ''totalCount'' = Some c \<longrightarrow>
                    qr_totalCount r = c)"
      using tc [of None]
      by (simp add: result_init_eq rt split: prod.splits option.splits)
    ultimately show "\<exists>kv. calls (snd (GraphQueryResult_init maxQueryLimit Q args kwargs w)) = calls w @ [(args, kv)]
         \<and> kw_fields kv = None
         \<and> (\<forall>r resp. fst (GraphQueryResult_init maxQueryLimit Q args kwargs w) = Inr r \<longrightarrow>
               fst (Q args kv (env w)) = Inr resp \<longrightarrow>
               (map_of resp ''meta'' = None \<longrightarrow> qr_totalCount r = PNone)
             \<and> (\<forall>m c. map_of resp ''meta'' = Some (PDict m) \<longrightarrow> map_of m ''totalCount'' = Some c \<longrightarrow>
                    qr_totalCount r = c))"
      by (intro exI [of _ "?kv None"]) simp
  }
  {
    fix d
    assume some: "kw_fields kwargs = Some (PDict d)"
      and meta: "map_of d ''meta'' = None \<or> (\<exists>m. map_of d ''meta'' = Some (PDict m))"
    from request_totalCount_dict [OF meta] obtain d' m' where
      rt: "request_totalCount (Some (PDict d)) = Inr (Some (PDict d'))"
      and d': "map_of d' ''meta'' = Some (PDict m')" "map_of m' ''totalCount'' \<noteq> None"
        "\<forall>k. k \<noteq> ''meta'' \<longrightarrow> map_of d' k = map_of d k"
      by blast
    have "calls (snd (GraphQueryResult_init maxQueryLimit Q args kwargs w))
        = calls w @ [(args, ?kv (Some (PDict d')))]"
      using frame [of "Some (PDict d')"]
      by (simp add: result_init_eq some rt split: prod.splits option.splits)
    with d' show "\<exists>kv d' m'. calls (snd (GraphQueryResult_init maxQueryLimit Q args kwargs w)) = calls w @ [(args, kv)]
         \<and> kw_fields kv = Some (PDict d')
         \<and> map_of d' ''meta'' = Some (PDict m') \<and> map_of m' ''totalCount'' \<noteq> None
         \<and> (\<forall>k. k \<noteq> ''meta'' \<longrightarrow> map_of d' k = map_of d k)"
      by (intro exI [of _ "?kv (Some (PDict d'))"] exI [of _ d'] exI [of _ m']) simp
  }
qed

theorem totalCount_requested_with_fields_witness:
  "(\<exists>kv. calls (snd (GraphQueryResult_init 2 (paged_data ''bodies'' [PInt 1, PInt 2, PInt 3] False) []
              \<lparr>kw_options = None, kw_fields = None, kw_others = []\<rparr>
              \<lparr>heap = [], calls = [], env = ()\<rparr>)) = [] @ [([], kv)]
         \<and> kw_fields kv = None)
   \<and> (\<exists>kv d' m'. calls (snd (GraphQueryResult_init 2 (paged_data ''bodies'' [PInt 1, PInt 2, PInt 3] False) []
              \<lparr>kw_options = None, kw_fields = Some (PDict [(''bodies'', PDict [(''id'', PNone)])]),
               kw_others = []\<rparr>
              \<lparr>heap = [], calls = [], env = ()\<rparr>)) = [] @ [([], kv)]
         \<and> kw_fields kv = Some (PDict d')
         \<and> map_of d' ''meta'' = Some (PDict m') \<and> map_of m' ''totalCount'' \<noteq> None)
   \<and> map (kw_fields \<circ> snd) (calls (snd (GraphQueryResult_init 2
              (paged_data ''bodies'' [PInt 1, PInt 2, PInt 3] False) []
              \<lparr>kw_options = None, kw_fields = Some (PDict [(''bodies'', PDict [(''id'', PNone)])]),
               kw_others = []\<rparr>
              \<lparr>heap = [], calls = [], env = ()\<rparr>)))
       = [Some (PDict [(''bodies'', PDict [(''id'', PNone)]), (''meta'', PDict [(''totalCount'', PNone)])])]"
proof -
  let ?Q = "paged_data ''bodies'' [PInt 1, PInt 2, PInt 3] False :: unit call"
  let ?wd = "\<lparr>heap = [], calls = [], env = ()\<rparr> :: unit world"
  let ?kwA = "\<lparr>kw_options = None, kw_fields = None, kw_others = []\<rparr> :: addr kwargs"
  let ?kwB = "\<lparr>kw_options = None, kw_fields = Some (PDict [(''bodies'', PDict [(''id'', PNone)])]),
               kw_others = []\<rparr> :: addr kwargs"
  from totalCount_requested_with_fields [of ?kwA 2 ?Q "[]" ?wd]
  have a: "\<exists>kv. calls (snd (GraphQueryResult_init 2 ?Q [] ?kwA ?wd)) = [] @ [([], kv)]
         \<and> kw_fields kv = None"
    by auto
  from totalCount_requested_with_fields [of ?kwB 2 ?Q "[]" ?wd]
  have b: "\<exists>kv d' m'. calls (snd (GraphQueryResult_init 2 ?Q [] ?kwB ?wd)) = [] @ [([], kv)]
         \<and> kw_fields kv = Some (PDict d')
         \<and> map_of d' ''meta'' = Some (PDict m') \<and> map_of m' ''totalCount'' \<noteq> None"
    by auto
  have c: "map (kw_fields \<circ> snd) (calls (snd (GraphQueryResult_init 2 ?Q [] ?kwB ?wd)))
       = [Some (PDict [(''bodies'', PDict [(''id'', PNone)]), (''meta'', PDict [(''totalCount'', PNone)])])]"
    by code_simp
  from a b c show ?thesis by blast
qed

text \<open>
  Claim C7. Both constructors deep-copy the keyword arguments: the options dictionary
  the object owns is a new cell of the store, different from the caller's. The caller's
  dictionary is the same after the construction of an iterator, after any number of
  \<open>next\<close> calls and after a \<open>for\<close> loop over it; a second iterator constructed from the
  same keyword arguments owns another cell again, and the calls of either iterator
  leave the caller's dictionary and the other iterator's dictionary as they were. The
  caller's dictionary is also the same after the construction of a container, after
  \<open>FetchAll\<close> and after iterating the container, which leave the container's own
  options unchanged as well. Query functions receive the options by value.
\<close>

theorem caller_options_not_shared:
  assumes a: "kw_options kwargs = Some a" "a < length (heap w)"
  shows "(\<forall>it w1. GraphQueryIterator_init maxQueryLimit queryFunction args kwargs w = (Inr it, w1) \<longrightarrow>
            kw_options (it_kwargs it) = Some (length (heap w))
          \<and> kw_options (it_kwargs it) \<noteq> Some a
          \<and> heap w1 ! a = heap w ! a
          \<and> (\<forall>fuel depth res it' w'. iterate fuel depth it w1 = Some (res, it', w') \<longrightarrow>
                heap w' ! a = heap w ! a)
          \<and> (\<forall>depths it' w'. nexts depths it w1 = (it', w') \<longrightarrow>
                heap w' ! a = heap w ! a
              \<and> (\<forall>it2 w2. GraphQueryIterator_init maxQueryLimit queryFunction args kwargs w' = (Inr it2, w2) \<longrightarrow>
                    kw_options (it_kwargs it2) \<noteq> kw_options (it_kwargs it')
                  \<and> (\<forall>depths2 it2' w2'. nexts depths2 it2 w2 = (it2', w2') \<longrightarrow>
                        heap w2' ! a = heap w ! a
                      \<and> heap w2' ! length (heap w) = heap w' ! length (heap w)
                      \<and> (\<forall>depths3 it3 w3. nexts depths3 it' w2' = (it3, w3) \<longrightarrow>
                            heap w3 ! a = heap w ! a
                          \<and> heap w3 ! length (heap w') = heap w2' ! length (heap w'))))))
       \<and> (\<forall>r w1. GraphQueryResult_init maxQueryLimit Q args kwargs w = (Inr r, w1) \<longrightarrow>
            kw_options (qr_kwargs r) = Some (length (heap w))
          \<and> kw_options (qr_kwargs r) \<noteq> Some a
          \<and> heap w1 ! a = heap w ! a
          \<and> (\<forall>fuel depth e r' w'. FetchAll maxQueryLimit fuel depth r w1 = Some (e, r', w') \<longrightarrow>
                heap w' ! a = heap w ! a
              \<and> heap w' ! length (heap w) = heap w1 ! length (heap w))
          \<and> (\<forall>it w2 depths it' w'.
                GraphQueryResult_iter maxQueryLimit r w1 = (Inr (PagingIterator it), w2) \<longrightarrow>
                nexts depths it w2 = (it', w') \<longrightarrow>
                heap w' ! a = heap w ! a
              \<and> heap w' ! length (heap w) = heap w1 ! length (heap w)))"
proof (rule conjI)
  show "\<forall>it w1. GraphQueryIterator_init maxQueryLimit queryFunction args kwargs w = (Inr it, w1) \<longrightarrow>
            kw_options (it_kwargs it) = Some (length (heap w))
          \<and> kw_options (it_kwargs it) \<noteq> Some a
          \<and> heap w1 ! a = heap w ! a
          \<and> (\<forall>fuel depth res it' w'. iterate fuel depth it w1 = Some (res, it', w') \<longrightarrow>
                heap w' ! a = heap w ! a)
          \<and> (\<forall>depths it' w'. nexts depths it w1 = (it', w') \<longrightarrow>
                heap w' ! a = heap w ! a
              \<and> (\<forall>it2 w2. GraphQueryIterator_init maxQueryLimit queryFunction args kwargs w' = (Inr it2, w2) \<longrightarrow>
                    kw_options (it_kwargs it2) \<noteq> kw_options (it_kwargs it')
                  \<and> (\<forall>depths2 it2' w2'. nexts depths2 it2 w2 = (it2', w2') \<longrightarrow>
                        heap w2' ! a = heap w ! a
                      \<and> heap w2' ! length (heap w) = heap w' ! length (heap w)
                      \<and> (\<forall>depths3 it3 w3. nexts depths3 it' w2' = (it3, w3) \<longrightarrow>
                            heap w3 ! a = heap w ! a
                          \<and> heap w3 ! length (heap w') = heap w2' ! length (heap w')))))"
  proof (intro allI impI)
    fix it w1
    assume init: "GraphQueryIterator_init maxQueryLimit queryFunction args kwargs w = (Inr it, w1)"
    note i1 = init_keeps [OF init]
    have own: "kw_options (it_kwargs it) = Some (length (heap w))" using i1 by simp
    have w1a: "heap w1 ! a = heap w ! a" using i1 a(2) by simp
    have iter: "heap w' ! a = heap w ! a"
      if "iterate fuel depth it w1 = Some (res, it', w')" for fuel depth res it' w'
      using iterate_keeps [OF that] own a(2) w1a by simp
    have runs: "heap w' ! a = heap w ! a
              \<and> (\<forall>it2 w2. GraphQueryIterator_init maxQueryLimit queryFunction args kwargs w' = (Inr it2, w2) \<longrightarrow>
                    kw_options (it_kwargs it2) \<noteq> kw_options (it_kwargs it')
                  \<and> (\<forall>depths2 it2' w2'. nexts depths2 it2 w2 = (it2', w2') \<longrightarrow>
                        heap w2' ! a = heap w ! a
                      \<and> heap w2' ! length (heap w) = heap w' ! length (heap w)
                      \<and> (\<forall>depths3 it3 w3. nexts depths3 it' w2' = (it3, w3) \<longrightarrow>
                            heap w3 ! a = heap w ! a
                          \<and> heap w3 ! length (heap w') = heap w2' ! length (heap w'))))"
      if run1: "nexts depths it w1 = (it', w')" for depths it' w'
    proof -
      note k1 = nexts_keeps [OF run1]
      have own': "kw_options (it_kwargs it') = Some (length (heap w))" using k1 own by simp
      have len': "length (heap w') = Suc (length (heap w))" using k1 i1 by simp
      have wa: "heap w' ! a = heap w ! a" using k1 own a(2) w1a by simp
      have second: "kw_options (it_kwargs it2) \<noteq> kw_options (it_kwargs it')
                  \<and> (\<forall>depths2 it2' w2'. nexts depths2 it2 w2 = (it2', w2') \<longrightarrow>
                        heap w2' ! a = heap w ! a
                      \<and> heap w2' ! length (heap w) = heap w' ! length (heap w)
                      \<and> (\<forall>depths3 it3 w3. nexts depths3 it' w2' = (it3, w3) \<longrightarrow>
                            heap w3 ! a = heap w ! a
                          \<and> heap w3 ! length (heap w') = heap w2' ! length (heap w')))"
        if init2: "GraphQueryIterator_init maxQueryLimit queryFunction args kwargs w' = (Inr it2, w2)"
        for it2 w2
      proof -
        note i2 = init_keeps [OF init2]
        have own2: "kw_options (it_kwargs it2) = Some (length (heap w'))" using i2 by simp
        have ne: "kw_options (it_kwargs it2) \<noteq> kw_options (it_kwargs it')"
          using own2 own' len' by simp
        have w2a: "heap w2 ! a = heap w ! a" "heap w2 ! length (heap w) = heap w' ! length (heap w)"
          using i2 len' a(2) wa by simp_all
        have third: "heap w2' ! a = heap w ! a
                      \<and> heap w2' ! length (heap w) = heap w' ! length (heap w)
                      \<and> (\<forall>depths3 it3 w3. nexts depths3 it' w2' = (it3, w3) \<longrightarrow>
                            heap w3 ! a = heap w ! a
                          \<and> heap w3 ! length (heap w') = heap w2' ! length (heap w'))"
          if run2: "nexts depths2 it2 w2 = (it2', w2')" for depths2 it2' w2'
        proof -
          note k2 = nexts_keeps [OF run2]
          have x: "heap w2' ! a = heap w ! a" "heap w2' ! length (heap w) = heap w' ! length (heap w)"
            using k2 own2 len' a(2) w2a by simp_all
          have "heap w3 ! a = heap w ! a \<and> heap w3 ! length (heap w') = heap w2' ! length (heap w')"
            if run3: "nexts depths3 it' w2' = (it3, w3)" for depths3 it3 w3
            using nexts_keeps [OF run3] own' len' a(2) x by simp
          with x show ?thesis by blast
        qed
        from ne third show ?thesis by blast
      qed
      from wa second show ?thesis by blast
    qed
    have nea: "kw_options (it_kwargs it) \<noteq> Some a" using own a(2) by simp
    from own nea w1a iter runs
    show "kw_options (it_kwargs it) = Some (length (heap w))
          \<and> kw_options (it_kwargs it) \<noteq> Some a
          \<and> heap w1 ! a = heap w ! a
          \<and> (\<forall>fuel depth res it' w'. iterate fuel depth it w1 = Some (res, it', w') \<longrightarrow>
                heap w' ! a = heap w ! a)
          \<and> (\<forall>depths it' w'. nexts depths it w1 = (it', w') \<longrightarrow>
                heap w' ! a = heap w ! a
              \<and> (\<forall>it2 w2. GraphQueryIterator_init maxQueryLimit queryFunction args kwargs w' = (Inr it2, w2) \<longrightarrow>
                    kw_options (it_kwargs it2) \<noteq> kw_options (it_kwargs it')
                  \<and> (\<forall>depths2 it2' w2'. nexts depths2 it2 w2 = (it2', w2') \<longrightarrow>
                        heap w2' ! a = heap w ! a
                      \<and> heap w2' ! length (heap w) = heap w' ! length (heap w)
                      \<and> (\<forall>depths3 it3 w3. nexts depths3 it' w2' = (it3, w3) \<longrightarrow>
                            heap w3 ! a = heap w ! a
                          \<and> heap w3 ! length (heap w') = heap w2' ! length (heap w')))))"
      by blast
  qed
next
  show "\<forall>r w1. GraphQueryResult_init maxQueryLimit Q args kwargs w = (Inr r, w1) \<longrightarrow>
            kw_options (qr_kwargs r) = Some (length (heap w))
          \<and> kw_options (qr_kwargs r) \<noteq> Some a
          \<and> heap w1 ! a = heap w ! a
          \<and> (\<forall>fuel depth e r' w'. FetchAll maxQueryLimit fuel depth r w1 = Some (e, r', w') \<longrightarrow>
                heap w' ! a = heap w ! a
              \<and> heap w' ! length (heap w) = heap w1 ! length (heap w))
          \<and> (\<forall>it w2 depths it' w'.
                GraphQueryResult_iter maxQueryLimit r w1 = (Inr (PagingIterator it), w2) \<longrightarrow>
                nexts depths it w2 = (it', w') \<longrightarrow>
                heap w' ! a = heap w ! a
              \<and> heap w' ! length (heap w) = heap w1 ! length (heap w))"
  proof (intro allI impI)
    fix r w1
    assume init: "GraphQueryResult_init maxQueryLimit Q args kwargs w = (Inr r, w1)"
    note i1 = result_init_keeps [OF init]
    have "heap w' ! a = heap w ! a \<and> heap w' ! length (heap w) = heap w1 ! length (heap w)"
      if "FetchAll maxQueryLimit fuel depth r w1 = Some (e, r', w')" for fuel depth e r' w'
      using FetchAll_keeps [OF that] i1 a(2) by simp
    moreover have "heap w' ! a = heap w ! a \<and> heap w' ! length (heap w) = heap w1 ! length (heap w)"
      if gi: "GraphQueryResult_iter maxQueryLimit r w1 = (Inr (PagingIterator it), w2)"
        and run: "nexts depths it w2 = (it', w')" for it w2 depths it' w'
    proof -
      from gi have "GraphQueryIterator_init maxQueryLimit (Function (qr_queryFunction r))
                      (qr_args r) (qr_kwargs r) w1 = (Inr it, w2)"
        by (cases "GraphQueryIterator_init maxQueryLimit (Function (qr_queryFunction r))
                      (qr_args r) (qr_kwargs r) w1")
           (auto simp add: GraphQueryResult_iter_def split: if_splits sum.splits)
      note i2 = init_keeps [OF this]
      from nexts_keeps [OF run] i2 i1 a(2) show ?thesis by simp
    qed
    moreover have "kw_options (qr_kwargs r) = Some (length (heap w))"
      "kw_options (qr_kwargs r) \<noteq> Some a" "heap w1 ! a = heap w ! a"
      using i1 a(2) by simp_all
    ultimately show "kw_options (qr_kwargs r) = Some (length (heap w))
          \<and> kw_options (qr_kwargs r) \<noteq> Some a
          \<and> heap w1 ! a = heap w ! a
          \<and> (\<forall>fuel depth e r' w'. FetchAll maxQueryLimit fuel depth r w1 = Some (e, r', w') \<longrightarrow>
                heap w' ! a = heap w ! a
              \<and> heap w' ! length (heap w) = heap w1 ! length (heap w))
          \<and> (\<forall>it w2 depths it' w'.
                GraphQueryResult_iter maxQueryLimit r w1 = (Inr (PagingIterator it), w2) \<longrightarrow>
                nexts depths it w2 = (it', w') \<longrightarrow>
                heap w' ! a = heap w ! a
              \<and> heap w' ! length (heap w) = heap w1 ! length (heap w))"
      by blast
  qed
qed

theorem caller_options_not_shared_witness:
  "(let kwargs = \<lparr>kw_options = Some (0::addr), kw_fields = None, kw_others = []\<rparr>;
        w = \<lparr>heap = [[(''first'', 2)]], calls = [], env = ()\<rparr>;
        Q = paged_data ''bodies'' [PInt 1, PInt 2, PInt 3] False;
        r = GraphQueryIterator_init 2 (Function Q) [] kwargs w;
        run = nexts [2, 2, 2] (projr (fst r)) (snd r);
        c = GraphQueryResult_init 2 Q [] kwargs w;
        f = FetchAll 2 5 2 (projr (fst c)) (snd c)
    in kw_options kwargs = Some 0 \<and> 0 < length (heap w)
     \<and> \<not> isl (fst r)
     \<and> heap (snd r) ! 0 = heap w ! 0
     \<and> heap (snd run) ! 0 = heap w ! 0
     \<and> heap (snd run) = [[(''first'', 2)], [(''first'', 2), (''offset'', 2)]]
     \<and> \<not> isl (fst c)
     \<and> f \<noteq> None
     \<and> heap (snd (snd (the f))) ! 0 = heap w ! 0
     \<and> heap (snd (snd (the f))) ! 1 = heap (snd c) ! 1
     \<and> heap (snd (snd (the f))) =
         [[(''first'', 2)], [(''first'', 2), (''offset'', 0)],
          [(''first'', 2), (''offset'', 0)], [(''first'', 2), (''offset'', 2)]])"
proof -
  let ?kw = "\<lparr>kw_options = Some (0::addr), kw_fields = None, kw_others = []\<rparr>"
  let ?wd = "\<lparr>heap = [[(''first'', 2)]], calls = [], env = ()\<rparr>"
  let ?Q = "paged_data ''bodies'' [PInt 1, PInt 2, PInt 3] False :: unit call"
  let ?r = "GraphQueryIterator_init 2 (Function ?Q) [] ?kw ?wd"
  let ?run = "nexts [2, 2, 2] (projr (fst ?r)) (snd ?r)"
  let ?c = "GraphQueryResult_init 2 ?Q [] ?kw ?wd"
  let ?f = "FetchAll 2 5 2 (projr (fst ?c)) (snd ?c)"
  have h: "kw_options ?kw = Some 0" "0 < length (heap ?wd)" by simp_all
  note t = caller_options_not_shared [of ?kw 0 ?wd 2 "Function ?Q" "[]" ?Q, OF h]
  have r: "\<not> isl (fst ?r)" by code_simp
  have c: "\<not> isl (fst ?c)" by code_simp
  have f: "?f \<noteq> None" by code_simp
  have init: "?r = (Inr (projr (fst ?r)), snd ?r)"
    using r by (simp add: prod_eq_iff)
  have run: "?run = (fst ?run, snd ?run)" by simp
  have cinit: "?c = (Inr (projr (fst ?c)), snd ?c)"
    using c by (simp add: prod_eq_iff)
  have fetch: "?f = Some (fst (the ?f), fst (snd (the ?f)), snd (snd (the ?f)))"
  proof -
    have "x = Some (fst (the x), fst (snd (the x)), snd (snd (the x)))"
      if "x \<noteq> None" for x :: "('a \<times> 'b \<times> 'c) option"
      using that by auto
    from this [OF f] show ?thesis .
  qed
  have a1: "heap (snd ?r) ! 0 = heap ?wd ! 0"
    using t init by blast
  have a2: "heap (snd ?run) ! 0 = heap ?wd ! 0"
    using t init run by blast
  have a3: "heap (snd (snd (the ?f))) ! 0 = heap ?wd ! 0"
    using t cinit fetch by blast
  have len: "length (heap ?wd) = 1" by simp
  have "heap (snd (snd (the ?f))) ! length (heap ?wd) = heap (snd ?c) ! length (heap ?wd)"
    using t cinit fetch by blast
  then have a4: "heap (snd (snd (the ?f))) ! 1 = heap (snd ?c) ! 1"
    by (simp only: len)
  have e1: "heap (snd ?run) = [[(''first'', 2)], [(''first'', 2), (''offset'', 2)]]"
    by code_simp
  have e2: "heap (snd (snd (the ?f))) =
         [[(''first'', 2)], [(''first'', 2), (''offset'', 0)],
          [(''first'', 2), (''offset'', 0)], [(''first'', 2), (''offset'', 2)]]"
    by code_simp
  show ?thesis
    unfolding Let_def by (intro conjI h r c f a1 a2 a3 a4 e1 e2)
qed

end
